theory Spec2Isabelle
  imports
    Complex_Main
    "HOL-Library.Word"
    "HOL-Library.Char_ord"
    "HOL-Library.List_Lexorder"
begin

section \<open>Python values and errors\<close>

text \<open>
  The module \<open>langgraph/checkpoint/sqlite.py\<close> handles values of type \<open>Any\<close>:
  checkpoints, metadata documents and metadata filter values. They are modelled by one
  datatype. A \<open>dict\<close> is the list of its items in iteration order. \<open>PObj\<close> stands for
  an object of any other type (a tuple, \<open>bytes\<close>, a set, an instance of a user class),
  told apart by a tag.
\<close>

type_synonym bytes = "8 word list"

datatype pyval =
    PNone
  | PBool bool
  | PInt int
  | PFloat real
  | PStr string
  | PList "pyval list"
  | PDict "(string \<times> pyval) list"
  | PObj nat

datatype pytype = TNone | TBool | TInt | TFloat | TStr | TList | TDict | TObject

datatype error =
    KeyError string
  | TypeError
  | Unsupported
  | DecodeError
  | OperationalError
  | ProgrammingError

fun type_of :: "pyval \<Rightarrow> pytype" where
  "type_of PNone = TNone"
| "type_of (PBool b) = TBool"
| "type_of (PInt i) = TInt"
| "type_of (PFloat x) = TFloat"
| "type_of (PStr s) = TStr"
| "type_of (PList xs) = TList"
| "type_of (PDict kvs) = TDict"
| "type_of (PObj n) = TObject"

text \<open>\<open>isinstance(v, t)\<close>: in Python \<open>bool\<close> is a subclass of \<open>int\<close>.\<close>

definition isinstance :: "pyval \<Rightarrow> pytype \<Rightarrow> bool" where
  "isinstance v t = (type_of v = t \<or> (type_of v = TBool \<and> t = TInt))"

text \<open>Truth value of an object in a condition; an object of another type is true by default.\<close>

fun truthy :: "pyval \<Rightarrow> bool" where
  "truthy PNone = False"
| "truthy (PBool b) = b"
| "truthy (PInt i) = (i \<noteq> 0)"
| "truthy (PFloat x) = (x \<noteq> 0)"
| "truthy (PStr s) = (s \<noteq> [])"
| "truthy (PList xs) = (xs \<noteq> [])"
| "truthy (PDict kvs) = (kvs \<noteq> [])"
| "truthy (PObj n) = True"

text \<open>
  The library functions the module calls, \<open>str\<close> and \<open>json.dumps\<close> (with its
  \<open>separators\<close> argument: item separator, key separator), are parameters of the model.
\<close>

record pylib =
  py_str :: "pyval \<Rightarrow> string"
  json_dumps :: "string \<Rightarrow> string \<Rightarrow> pyval \<Rightarrow> string"

section \<open>The compatibility serializer\<close>

text \<open>\<open>bytes.startswith\<close> and \<open>bytes.endswith\<close>.\<close>

definition startswith :: "'a list \<Rightarrow> 'a list \<Rightarrow> bool" where
  "startswith d p = (take (length p) d = p)"

definition endswith :: "'a list \<Rightarrow> 'a list \<Rightarrow> bool" where
  "endswith d p = (length p \<le> length d \<and> drop (length d - length p) d = p)"

text \<open>
  \<open>JsonPlusSerializerCompat.loads\<close>; \<open>pickle.loads\<close> and the \<open>loads\<close> of the
  superclass \<open>JsonPlusSerializer\<close> are parameters.
\<close>

definition compat_loads ::
  "(bytes \<Rightarrow> error + 'v) \<Rightarrow> (bytes \<Rightarrow> error + 'v) \<Rightarrow> bytes \<Rightarrow> error + 'v" where
  "compat_loads pickle_loads super_loads data =
     (if startswith data [0x80] \<and> endswith data [0x2E] then pickle_loads data
      else super_loads data)"

section \<open>The query builder\<close>

text \<open>The single quote of the SQL text.\<close>

abbreviation quote :: char where
  "quote \<equiv> CHR 0x27"

text \<open>The inner function \<open>_where_value\<close> of \<open>_metadata_predicate\<close>.\<close>

definition where_value :: "pylib \<Rightarrow> pyval \<Rightarrow> string \<times> pyval" where
  "where_value lib query_value =
     (if query_value = PNone then (''IS ?'', PNone)
      else if isinstance query_value TStr \<or> isinstance query_value TInt
              \<or> isinstance query_value TFloat
        then (''= ?'', query_value)
      else if isinstance query_value TBool
        then (''= ?'', PInt (if truthy query_value then 1 else 0))
      else if isinstance query_value TDict \<or> isinstance query_value TList
        then (''= ?'', PStr (json_dumps lib '','' '':'' query_value))
      else (''= ?'', PStr (py_str lib query_value)))"

text \<open>One round of the loop of \<open>_metadata_predicate\<close> over \<open>metadata_filter.items()\<close>.\<close>

definition predicate_step ::
  "pylib \<Rightarrow> string \<times> pyval list \<Rightarrow> string \<times> pyval \<Rightarrow> string \<times> pyval list" where
  "predicate_step lib acc item =
     (case acc of (predicate, param_values) \<Rightarrow>
      case item of (query_key, query_value) \<Rightarrow>
      case where_value lib query_value of (operator, param_value) \<Rightarrow>
        (predicate @ ''json_extract(CAST(metadata AS TEXT), '' @ [quote] @ ''$.'' @ query_key
           @ [quote] @ '') '' @ operator @ '' AND '',
         param_values @ [param_value]))"

text \<open>The slice \<open>predicate[:-4]\<close>.\<close>

definition drop_last4 :: "string \<Rightarrow> string" where
  "drop_last4 s = take (length s - 4) s"

definition metadata_predicate :: "pylib \<Rightarrow> (string \<times> pyval) list \<Rightarrow> string \<times> pyval list" where
  "metadata_predicate lib metadata_filter =
     (case foldl (predicate_step lib) ('''', []) metadata_filter of
        (predicate, param_values) \<Rightarrow>
          (if predicate \<noteq> '''' then drop_last4 predicate else predicate, param_values))"

text \<open>
  A locator is the \<open>configurable\<close> dictionary of a \<open>RunnableConfig\<close>, with its two keys
  \<open>thread_id\<close> and \<open>thread_ts\<close> (the checkpoint id); \<open>None\<close> is an absent key. The values
  are strings, for which \<open>str\<close> is the identity.
\<close>

record locator =
  thread_id :: "string option"
  thread_ts :: "string option"

definition search_where ::
  "pylib \<Rightarrow> (string \<times> pyval) list \<Rightarrow> locator option \<Rightarrow> error + (string \<times> pyval list)" where
  "search_where lib metadata_filter before_cfg =
     (case metadata_predicate lib metadata_filter of (m_predicate, m_values) \<Rightarrow>
      let (where1, param_values1) =
            (if m_predicate \<noteq> '''' then (''WHERE '' @ m_predicate, m_values)
             else (''WHERE '', []))
      in case before_cfg of
           None \<Rightarrow>
             Inr (if where1 = ''WHERE '' then ('''', []) else (where1, param_values1))
         | Some b \<Rightarrow>
             (case thread_ts b of
                None \<Rightarrow> Inl (KeyError ''thread_ts'')
              | Some ts \<Rightarrow>
                  let where2 = (if m_predicate \<noteq> '''' then where1 @ ''AND thread_ts < ? ''
                                else where1 @ ''thread_ts < ? '');
                      param_values2 = param_values1 @ [PStr ts]
                  in Inr (if where2 = ''WHERE '' then ('''', []) else (where2, param_values2))))"

section \<open>The checkpoint table\<close>

text \<open>
  A row of the table \<open>checkpoints\<close> created by \<open>SqliteSaver.setup\<close>: \<open>thread_id\<close> and
  \<open>thread_ts\<close> are \<open>TEXT NOT NULL\<close> and form the primary key, \<open>parent_ts\<close> is a nullable
  \<open>TEXT\<close>, \<open>metadata\<close> a nullable \<open>BLOB\<close>. The column \<open>checkpoint\<close> is a \<open>BLOB\<close> that
  \<open>put\<close> always fills.
\<close>

record row =
  r_thread_id :: string
  r_thread_ts :: string
  r_parent_ts :: "string option"
  r_checkpoint :: bytes
  r_metadata :: "bytes option"

definition row_key :: "row \<Rightarrow> string \<times> string" where
  "row_key r = (r_thread_id r, r_thread_ts r)"

text \<open>The primary key constraint of the table.\<close>

definition primary_key_ok :: "row list \<Rightarrow> bool" where
  "primary_key_ok rows = distinct (map row_key rows)"

text \<open>The injected serializer \<open>self.serde\<close>.\<close>

record serde =
  dumps :: "pyval \<Rightarrow> bytes"
  loads :: "bytes \<Rightarrow> error + pyval"

text \<open>
  The saver: the rows of the table behind its connection (a table that was not created yet
  has none) and the flag \<open>is_setup\<close>.
\<close>

record saver =
  conn :: "row list"
  is_setup :: bool

text \<open>\<open>SqliteSaver.__init__\<close> on a connection to a database with the given rows.\<close>

definition init_saver :: "row list \<Rightarrow> saver" where
  "init_saver rows = \<lparr>conn = rows, is_setup = False\<rparr>"

text \<open>\<open>CREATE TABLE IF NOT EXISTS\<close> leaves the rows of an existing table as they are.\<close>

definition create_table_if_not_exists :: "row list \<Rightarrow> row list" where
  "create_table_if_not_exists rows = rows"

definition saver_setup :: "saver \<Rightarrow> saver" where
  "saver_setup s =
     (if is_setup s then s
      else s\<lparr>conn := create_table_if_not_exists (conn s), is_setup := True\<rparr>)"

subsection \<open>The SQL statements\<close>

text \<open>
  \<open>INSERT OR REPLACE\<close>: the rows in conflict with the new one on the primary key are
  deleted, then the new row is inserted.
\<close>

definition insert_or_replace :: "row \<Rightarrow> row list \<Rightarrow> row list" where
  "insert_or_replace new rows = filter (\<lambda>r. row_key r \<noteq> row_key new) rows @ [new]"

text \<open>
  \<open>ORDER BY thread_ts DESC\<close>: the column is compared byte by byte, a proper prefix being
  smaller, which is the lexicographic order of \<open>string\<close>.
\<close>

definition order_by_thread_ts_desc :: "row list \<Rightarrow> row list" where
  "order_by_thread_ts_desc rows = rev (sort_key r_thread_ts rows)"

text \<open>\<open>LIMIT n\<close>: a negative \<open>n\<close> sets no bound.\<close>

definition sql_limit :: "int \<Rightarrow> 'a list \<Rightarrow> 'a list" where
  "sql_limit n xs = (if n < 0 then xs else take (nat n) xs)"

text \<open>
  The clause \<open>LIMIT {limit}\<close> is added to the query under \<open>if limit:\<close>, that is for a
  limit that is neither \<open>None\<close> nor \<open>0\<close>.
\<close>

definition limit_clause :: "int option \<Rightarrow> 'a list \<Rightarrow> 'a list" where
  "limit_clause limit xs =
     (case limit of None \<Rightarrow> xs | Some n \<Rightarrow> if n \<noteq> 0 then sql_limit n xs else xs)"

definition fetchone :: "'a list \<Rightarrow> 'a option" where
  "fetchone xs = (case xs of [] \<Rightarrow> None | x # _ \<Rightarrow> Some x)"

subsection \<open>Checkpoint tuples\<close>

record checkpoint_tuple =
  config :: locator
  checkpoint :: pyval
  metadata :: pyval
  parent_config :: "locator option"

text \<open>The truth value of \<open>config["configurable"].get("thread_ts")\<close> and of a \<open>parent_ts\<close>.\<close>

definition truthy_text :: "string option \<Rightarrow> bool" where
  "truthy_text x = (case x of None \<Rightarrow> False | Some t \<Rightarrow> truthy (PStr t))"

text \<open>\<open>self.serde.loads(metadata) if metadata is not None else {}\<close>.\<close>

definition load_metadata :: "serde \<Rightarrow> bytes option \<Rightarrow> error + pyval" where
  "load_metadata srd md = (case md of None \<Rightarrow> Inr (PDict []) | Some b \<Rightarrow> loads srd b)"

definition parent_locator :: "string option \<Rightarrow> string option \<Rightarrow> locator option" where
  "parent_locator tid parent_ts =
     (if truthy_text parent_ts then Some \<lparr>thread_id = tid, thread_ts = parent_ts\<rparr> else None)"

text \<open>
  The \<open>CheckpointTuple\<close> built from a row: the given \<open>config\<close>, the decoded checkpoint, the
  decoded metadata and the parent locator with the given \<open>thread_id\<close>. An exception of
  \<open>loads\<close> goes to the caller.
\<close>

definition make_tuple ::
  "serde \<Rightarrow> locator \<Rightarrow> string option \<Rightarrow> row \<Rightarrow> error + checkpoint_tuple" where
  "make_tuple srd cfg tid r =
     (case loads srd (r_checkpoint r) of
        Inl e \<Rightarrow> Inl e
      | Inr c \<Rightarrow>
          (case load_metadata srd (r_metadata r) of
             Inl e \<Rightarrow> Inl e
           | Inr m \<Rightarrow>
               Inr \<lparr>config = cfg, checkpoint = c, metadata = m,
                    parent_config = parent_locator tid (r_parent_ts r)\<rparr>))"

text \<open>The tuple that \<open>list\<close>, \<open>search\<close> and the second branch of \<open>get_tuple\<close> build.\<close>

definition row_tuple :: "serde \<Rightarrow> row \<Rightarrow> error + checkpoint_tuple" where
  "row_tuple srd r =
     make_tuple srd \<lparr>thread_id = Some (r_thread_id r), thread_ts = Some (r_thread_ts r)\<rparr>
       (Some (r_thread_id r)) r"

text \<open>
  The loop \<open>for ... in cur: yield CheckpointTuple(...)\<close> of the generators \<open>list\<close> and
  \<open>search\<close>: the tuples yielded, and the exception that ended the iteration if there is one.
\<close>

fun yield_rows :: "serde \<Rightarrow> row list \<Rightarrow> checkpoint_tuple list \<times> error option" where
  "yield_rows srd [] = ([], None)"
| "yield_rows srd (r # rs) =
     (case row_tuple srd r of
        Inl e \<Rightarrow> ([], Some e)
      | Inr t \<Rightarrow> (case yield_rows srd rs of (ts, e) \<Rightarrow> (t # ts, e)))"

section \<open>The operations of \<open>SqliteSaver\<close>\<close>

text \<open>
  An operation takes the saver and returns its result together with the saver afterwards.
  Each one opens \<open>self.cursor()\<close>, which calls \<open>setup\<close> first. An exception is the error
  on the left of a sum; for the generators \<open>list\<close> and \<open>search\<close> it stands beside the
  tuples yielded before it. The methods \<open>setup\<close> and \<open>list\<close> are \<open>saver_setup\<close> and
  \<open>saver_list\<close> here, and the parameter \<open>before\<close> is \<open>before_cfg\<close>.
\<close>

definition get_tuple ::
  "serde \<Rightarrow> saver \<Rightarrow> locator \<Rightarrow> (error + checkpoint_tuple option) \<times> saver" where
  "get_tuple srd s cfg =
     (let s' = saver_setup s in
      if truthy_text (thread_ts cfg) then
        (case thread_id cfg of
           None \<Rightarrow> (Inl (KeyError ''thread_id''), s')
         | Some tid \<Rightarrow>
             (case fetchone (filter (\<lambda>r. r_thread_id r = tid \<and> Some (r_thread_ts r) = thread_ts cfg)
                               (conn s')) of
                None \<Rightarrow> (Inr None, s')
              | Some r \<Rightarrow>
                  (case make_tuple srd cfg (thread_id cfg) r of
                     Inl e \<Rightarrow> (Inl e, s')
                   | Inr t \<Rightarrow> (Inr (Some t), s'))))
      else
        (case thread_id cfg of
           None \<Rightarrow> (Inl (KeyError ''thread_id''), s')
         | Some tid \<Rightarrow>
             (case fetchone (sql_limit 1 (order_by_thread_ts_desc
                               (filter (\<lambda>r. r_thread_id r = tid) (conn s')))) of
                None \<Rightarrow> (Inr None, s')
              | Some r \<Rightarrow>
                  (case row_tuple srd r of
                     Inl e \<Rightarrow> (Inl e, s')
                   | Inr t \<Rightarrow> (Inr (Some t), s')))))"

text \<open>The rows that the query of \<open>list\<close> selects, in the order of the cursor.\<close>

definition list_query :: "row list \<Rightarrow> string \<Rightarrow> string option \<Rightarrow> int option \<Rightarrow> row list" where
  "list_query rows tid before_ts limit =
     limit_clause limit (order_by_thread_ts_desc
       (filter (\<lambda>r. r_thread_id r = tid
                  \<and> (case before_ts of None \<Rightarrow> True | Some x \<Rightarrow> r_thread_ts r < x)) rows))"

definition saver_list ::
  "serde \<Rightarrow> saver \<Rightarrow> locator \<Rightarrow> locator option \<Rightarrow> int option
     \<Rightarrow> (checkpoint_tuple list \<times> error option) \<times> saver" where
  "saver_list srd s cfg before_cfg limit =
     (let s' = saver_setup s in
      case thread_id cfg of
        None \<Rightarrow> (([], Some (KeyError ''thread_id'')), s')
      | Some tid \<Rightarrow>
          (case before_cfg of
             None \<Rightarrow> (yield_rows srd (list_query (conn s') tid None limit), s')
           | Some b \<Rightarrow>
               (case thread_ts b of
                  None \<Rightarrow> (([], Some (KeyError ''thread_ts'')), s')
                | Some x \<Rightarrow> (yield_rows srd (list_query (conn s') tid (Some x) limit), s'))))"

text \<open>
  \<open>checkpoint["id"]\<close>. The field \<open>id\<close> of a \<open>Checkpoint\<close> is declared a string; what the
  database does with an id of another type, and what an object of another type does under
  subscription, is not modelled.
\<close>

fun checkpoint_id :: "pyval \<Rightarrow> error + string" where
  "checkpoint_id (PDict kvs) =
     (case map_of kvs ''id'' of
        None \<Rightarrow> Inl (KeyError ''id'')
      | Some (PStr i) \<Rightarrow> Inr i
      | Some _ \<Rightarrow> Inl Unsupported)"
| "checkpoint_id (PObj n) = Inl Unsupported"
| "checkpoint_id v = Inl TypeError"

definition put ::
  "serde \<Rightarrow> saver \<Rightarrow> locator \<Rightarrow> pyval \<Rightarrow> pyval \<Rightarrow> (error + locator) \<times> saver" where
  "put srd s cfg cp md =
     (let s' = saver_setup s in
      case thread_id cfg of
        None \<Rightarrow> (Inl (KeyError ''thread_id''), s')
      | Some tid \<Rightarrow>
          (case checkpoint_id cp of
             Inl e \<Rightarrow> (Inl e, s')
           | Inr cid \<Rightarrow>
               (Inr \<lparr>thread_id = thread_id cfg, thread_ts = Some cid\<rparr>,
                s'\<lparr>conn := insert_or_replace
                     \<lparr>r_thread_id = tid, r_thread_ts = cid, r_parent_ts = thread_ts cfg,
                      r_checkpoint = dumps srd cp, r_metadata = Some (dumps srd md)\<rparr>
                     (conn s')\<rparr>)))"

section \<open>Search: the storage engine on the generated clause\<close>

text \<open>
  \<open>search\<close> sends the text built by \<open>search_where\<close> to the storage engine. What the
  engine computes for \<open>json_extract(CAST(metadata AS TEXT), path) = ?\<close> and for
  \<open>... IS ?\<close> on the metadata column of a row and a bound parameter is a parameter of
  the model, as is the comparison of \<open>thread_ts\<close> with a parameter that is not a string.
\<close>

record engine =
  test_eq :: "string \<Rightarrow> bytes option \<Rightarrow> pyval \<Rightarrow> bool"
  test_is :: "string \<Rightarrow> bytes option \<Rightarrow> pyval \<Rightarrow> bool"
  text_less :: "string \<Rightarrow> pyval \<Rightarrow> bool"

text \<open>
  The conjuncts of a \<open>WHERE\<close> clause: a comparison of the metadata field at a JSON path
  with a parameter by \<open>=\<close> or by \<open>IS\<close>, and \<open>thread_ts < ?\<close>.
\<close>

datatype cond = MetaEq string | MetaIs string | TsLess

text \<open>
  The engine reads the clause as text. The reader below knows the clauses that this module
  writes: \<open>WHERE\<close>, then conjuncts joined by \<open>AND\<close>, a JSON path being an SQL string
  literal that ends at the next single quote. Any other text is answered with
  \<open>OperationalError\<close>, which is what the engine answers to a text it cannot parse; a key
  that closes the literal and goes on with text the engine can parse is not modelled.
\<close>

definition strip_prefix :: "string \<Rightarrow> string \<Rightarrow> string option" where
  "strip_prefix p s = (if take (length p) s = p then Some (drop (length p) s) else None)"

definition parse_cond :: "string \<Rightarrow> (cond \<times> string) option" where
  "parse_cond s =
     (case strip_prefix ''thread_ts < ? '' s of
        Some rest \<Rightarrow> Some (TsLess, rest)
      | None \<Rightarrow>
          (case strip_prefix (''json_extract(CAST(metadata AS TEXT), '' @ [quote]) s of
             None \<Rightarrow> None
           | Some s1 \<Rightarrow>
               (case strip_prefix ([quote] @ '') '') (dropWhile (\<lambda>c. c \<noteq> quote) s1) of
                  None \<Rightarrow> None
                | Some s2 \<Rightarrow>
                    (case strip_prefix ''= ? '' s2 of
                       Some rest \<Rightarrow> Some (MetaEq (takeWhile (\<lambda>c. c \<noteq> quote) s1), rest)
                     | None \<Rightarrow>
                         (case strip_prefix ''IS ? '' s2 of
                            Some rest \<Rightarrow> Some (MetaIs (takeWhile (\<lambda>c. c \<noteq> quote) s1), rest)
                          | None \<Rightarrow> None)))))"

function parse_conds :: "string \<Rightarrow> cond list option" where
  "parse_conds s =
     (case parse_cond s of
        None \<Rightarrow> None
      | Some (c, rest) \<Rightarrow>
          if rest = [] then Some [c]
          else (case strip_prefix ''AND '' rest of
                  None \<Rightarrow> None
                | Some rest' \<Rightarrow>
                    (case parse_conds rest' of None \<Rightarrow> None | Some cs \<Rightarrow> Some (c # cs))))"
  by pat_completeness auto
termination
proof (relation "measure length")
  show "wf (measure length)" by simp
next
  fix s :: string and x2 x y rest'
  assume p: "parse_cond s = Some x2" and x: "(x, y) = x2"
    and r: "strip_prefix ''AND '' y = Some rest'"
  have le: "length u \<le> length t" if "strip_prefix p t = Some u" for p t u
    using that by (auto simp add: strip_prefix_def split: if_splits)
  have lt: "length u < length t" if "strip_prefix p t = Some u" "p \<noteq> []" for p t u
  proof -
    from that have "take (length p) t = p" "u = drop (length p) t"
      by (auto simp add: strip_prefix_def split: if_splits)
    then have "length (take (length p) t) = length p"
      by simp
    then have "length p \<le> length t"
      by simp
    with \<open>u = drop (length p) t\<close> \<open>p \<noteq> []\<close> show ?thesis
      by (cases p) auto
  qed
  have dw: "length (dropWhile (\<lambda>c. c \<noteq> quote) t) \<le> length t" for t :: string
    by (simp add: length_dropWhile_le)
  have "length y < length s"
  proof (cases "strip_prefix ''thread_ts < ? '' s")
    case (Some u)
    with p x have "y = u" by (auto simp add: parse_cond_def)
    with lt [OF Some] show ?thesis by simp
  next
    case None
    with p x obtain s1 s2 where
      s1: "strip_prefix (''json_extract(CAST(metadata AS TEXT), '' @ [quote]) s = Some s1" and
      s2: "strip_prefix ([quote] @ '') '') (dropWhile (\<lambda>c. c \<noteq> quote) s1) = Some s2" and
      y: "strip_prefix ''= ? '' s2 = Some y \<or> strip_prefix ''IS ? '' s2 = Some y"
      by (auto simp add: parse_cond_def split: option.splits)
    from y have "length y \<le> length s2" using le by blast
    also from s2 have "\<dots> \<le> length (dropWhile (\<lambda>c. c \<noteq> quote) s1)" by (rule le)
    also have "\<dots> \<le> length s1" by (rule dw)
    also from s1 have "\<dots> < length s" by (rule lt) simp
    finally show ?thesis .
  qed
  moreover from r have "length rest' \<le> length y" by (rule le)
  ultimately show "(rest', s) \<in> measure length" by simp
qed

definition parse_where :: "string \<Rightarrow> cond list option" where
  "parse_where w =
     (if w = [] then Some []
      else case strip_prefix ''WHERE '' w of None \<Rightarrow> None | Some body \<Rightarrow> parse_conds body)"

text \<open>The truth of one conjunct on a row, with the parameter bound to its placeholder.\<close>

fun cond_holds :: "engine \<Rightarrow> row \<Rightarrow> cond \<times> pyval \<Rightarrow> bool" where
  "cond_holds eng r (MetaEq path, p) = test_eq eng path (r_metadata r) p"
| "cond_holds eng r (MetaIs path, p) = test_is eng path (r_metadata r) p"
| "cond_holds eng r (TsLess, p) =
     (case p of PStr x \<Rightarrow> r_thread_ts r < x | _ \<Rightarrow> text_less eng (r_thread_ts r) p)"

text \<open>
  \<open>cur.execute(query, params)\<close> up to the \<open>WHERE\<close> clause: the rows that satisfy every
  conjunct. A number of parameters other than the number of placeholders is a
  \<open>ProgrammingError\<close>.
\<close>

definition where_rows :: "engine \<Rightarrow> string \<Rightarrow> pyval list \<Rightarrow> row list \<Rightarrow> error + row list" where
  "where_rows eng w params rows =
     (case parse_where w of
        None \<Rightarrow> Inl OperationalError
      | Some conds \<Rightarrow>
          if length conds \<noteq> length params then Inl ProgrammingError
          else Inr (filter (\<lambda>r. list_all (cond_holds eng r) (zip conds params)) rows))"

definition search ::
  "serde \<Rightarrow> engine \<Rightarrow> pylib \<Rightarrow> saver \<Rightarrow> (string \<times> pyval) list \<Rightarrow> locator option \<Rightarrow> int option
     \<Rightarrow> (checkpoint_tuple list \<times> error option) \<times> saver" where
  "search srd eng lib s metadata_filter before_cfg limit =
     (case search_where lib metadata_filter before_cfg of
        Inl e \<Rightarrow> (([], Some e), s)
      | Inr (w, params) \<Rightarrow>
          (let s' = saver_setup s in
           case where_rows eng w params (conn s') of
             Inl e \<Rightarrow> (([], Some e), s')
           | Inr rows \<Rightarrow> (yield_rows srd (limit_clause limit (order_by_thread_ts_desc rows)), s')))"

section \<open>Notions used in the statements\<close>

text \<open>
  The text of one conjunct as \<open>_metadata_predicate\<close> writes it, without the \<open>AND\<close> that
  follows it, and the conjuncts joined by \<open>AND\<close>.
\<close>

definition clause_text :: "string \<Rightarrow> string \<Rightarrow> string" where
  "clause_text key operator =
     ''json_extract(CAST(metadata AS TEXT), '' @ [quote] @ ''$.'' @ key @ [quote] @ '') ''
       @ operator @ '' ''"

fun and_join :: "string list \<Rightarrow> string" where
  "and_join [] = ''''"
| "and_join [c] = c"
| "and_join (c # d # cs) = c @ ''AND '' @ and_join (d # cs)"

definition item_clause :: "pylib \<Rightarrow> string \<times> pyval \<Rightarrow> string" where
  "item_clause lib item = clause_text (fst item) (fst (where_value lib (snd item)))"

text \<open>
  The checkpoint id of a yielded tuple, the value \<open>get_tuple\<close> returns for a row that was
  found, the row that \<open>put\<close> writes, and a sequence of \<open>put\<close> calls.
\<close>

definition tuple_ts :: "checkpoint_tuple \<Rightarrow> string" where
  "tuple_ts t = (case thread_ts (config t) of None \<Rightarrow> [] | Some x \<Rightarrow> x)"

definition returned :: "error + checkpoint_tuple \<Rightarrow> error + checkpoint_tuple option" where
  "returned x = (case x of Inl e \<Rightarrow> Inl e | Inr t \<Rightarrow> Inr (Some t))"

definition put_row :: "serde \<Rightarrow> string \<Rightarrow> string \<Rightarrow> locator \<Rightarrow> pyval \<Rightarrow> pyval \<Rightarrow> row" where
  "put_row srd tid cid cfg cp md =
     \<lparr>r_thread_id = tid, r_thread_ts = cid, r_parent_ts = thread_ts cfg,
      r_checkpoint = dumps srd cp, r_metadata = Some (dumps srd md)\<rparr>"

fun run_puts :: "serde \<Rightarrow> saver \<Rightarrow> (locator \<times> pyval \<times> pyval) list \<Rightarrow> saver" where
  "run_puts srd s [] = s"
| "run_puts srd s (c # calls) =
     run_puts srd (snd (put srd s (fst c) (fst (snd c)) (snd (snd c)))) calls"









section \<open>Concrete instances\<close>

text \<open>A library whose \<open>str\<close> and \<open>json.dumps\<close> answer with fixed texts.\<close>

definition lib0 :: pylib where
  "lib0 = \<lparr>py_str = (\<lambda>v. ''obj''), json_dumps = (\<lambda>a b v. ''{}'')\<rparr>"

text \<open>
  Three checkpoints with the ids \<open>a\<close>, \<open>b\<close> and the empty id, three metadata documents (the
  third with a key that holds a single quote), and a serializer that knows these six values
  and fails with \<open>DecodeError\<close> on other bytes.
\<close>

definition cpA :: pyval where "cpA = PDict [(''id'', PStr ''a''), (''v'', PInt 1)]"

definition cpB :: pyval where "cpB = PDict [(''id'', PStr ''b''), (''v'', PInt 2)]"

definition cpE :: pyval where "cpE = PDict [(''id'', PStr ''''), (''v'', PInt 0)]"

definition md1 :: pyval where "md1 = PDict [(''source'', PStr ''input''), (''step'', PInt 1)]"

definition md2 :: pyval where "md2 = PDict [(''step'', PInt 2)]"

definition md3 :: pyval where "md3 = PDict [(''it'' @ [quote] @ ''s'', PStr ''x'')]"

definition serde0 :: serde where
  "serde0 =
     \<lparr>dumps = (\<lambda>v. if v = cpA then [0x61] else if v = cpB then [0x62]
                    else if v = cpE then [0x65]
                    else if v = md1 then [0x31] else if v = md2 then [0x32]
                    else if v = md3 then [0x33] else [0x3F]),
      loads = (\<lambda>b. if b = [0x61] then Inr cpA else if b = [0x62] then Inr cpB
                    else if b = [0x65] then Inr cpE
                    else if b = [0x31] then Inr md1 else if b = [0x32] then Inr md2
                    else if b = [0x33] then Inr md3
                    else Inl DecodeError)\<rparr>"

text \<open>
  Locators of thread \<open>1\<close>, the store after \<open>put\<close> of \<open>a\<close> and of \<open>b\<close> on \<open>a\<close>, the store after
  \<open>put\<close> of the empty id and of \<open>a\<close>, and the rows and the tuple they hold.
\<close>

definition loc1 :: locator where "loc1 = \<lparr>thread_id = Some ''1'', thread_ts = None\<rparr>"

definition loc1a :: locator where "loc1a = \<lparr>thread_id = Some ''1'', thread_ts = Some ''a''\<rparr>"

definition loc1e :: locator where "loc1e = \<lparr>thread_id = Some ''1'', thread_ts = Some ''''\<rparr>"

definition locZ :: locator where "locZ = \<lparr>thread_id = Some ''1'', thread_ts = Some ''z''\<rparr>"

definition loc2 :: locator where "loc2 = \<lparr>thread_id = Some ''2'', thread_ts = None\<rparr>"


definition st2 :: saver where
  "st2 = snd (put serde0 (snd (put serde0 (init_saver []) loc1 cpA md1)) loc1a cpB md2)"

definition stE :: saver where
  "stE = snd (put serde0 (snd (put serde0 (init_saver []) loc1 cpE md1)) loc1 cpA md2)"

definition rowA :: row where
  "rowA = \<lparr>r_thread_id = ''1'', r_thread_ts = ''a'', r_parent_ts = None,
            r_checkpoint = [0x61], r_metadata = Some [0x31]\<rparr>"

definition rowB :: row where
  "rowB = \<lparr>r_thread_id = ''1'', r_thread_ts = ''b'', r_parent_ts = Some ''a'',
            r_checkpoint = [0x62], r_metadata = Some [0x32]\<rparr>"

definition rowB1 :: row where
  "rowB1 = \<lparr>r_thread_id = ''1'', r_thread_ts = ''b'', r_parent_ts = Some ''a'',
             r_checkpoint = [0x62], r_metadata = Some [0x31]\<rparr>"

definition rowE :: row where
  "rowE = \<lparr>r_thread_id = ''1'', r_thread_ts = '''', r_parent_ts = None,
            r_checkpoint = [0x65], r_metadata = Some [0x31]\<rparr>"

definition tupleB :: checkpoint_tuple where
  "tupleB = \<lparr>config = \<lparr>thread_id = Some ''1'', thread_ts = Some ''b''\<rparr>,
              checkpoint = cpB, metadata = md2,
              parent_config = Some \<lparr>thread_id = Some ''1'', thread_ts = Some ''a''\<rparr>\<rparr>"

definition calls2 :: "(locator \<times> pyval \<times> pyval) list" where
  "calls2 = [(loc1, cpA, md1), (loc1a, cpB, md2)]"








section \<open>The compatibility serializer: routing by the boundary bytes\<close>

lemma startswith_single: "startswith d [b] = (d \<noteq> [] \<and> hd d = b)"
  by (cases d) (simp_all add: startswith_def)

lemma endswith_single: "endswith d [b] = (d \<noteq> [] \<and> last d = b)"
proof (cases "d = []")
  case True
  then show ?thesis by (simp add: endswith_def)
next
  case False
  have "drop (length (butlast d)) (butlast d @ [last d]) = [last d]"
    by simp
  with False have "drop (length d - 1) d = [last d]"
    by simp
  with False show ?thesis
    by (cases d) (auto simp add: endswith_def)
qed

text \<open>
  C8. A byte string whose first byte is \<open>0x80\<close> and whose last byte is \<open>0x2E\<close> is decoded
  by the legacy path \<open>pickle.loads\<close>, so that \<open>loads\<close> raises no \<open>DecodeError\<close> where the
  legacy decoder returns a value; every other byte string goes to the primary decoder and
  never to the legacy path.
\<close>

theorem compat_loads_routing:
  fixes data :: bytes
  shows "(data \<noteq> [] \<and> hd data = 0x80 \<and> last data = 0x2E \<longrightarrow>
            compat_loads pickle_loads super_loads data = pickle_loads data
            \<and> (\<forall>v. pickle_loads data = Inr v \<longrightarrow>
                   compat_loads pickle_loads super_loads data \<noteq> Inl DecodeError))
       \<and> (\<not> (data \<noteq> [] \<and> hd data = 0x80 \<and> last data = 0x2E) \<longrightarrow>
            compat_loads pickle_loads super_loads data = super_loads data)"
  by (auto simp add: compat_loads_def startswith_single endswith_single)

theorem compat_loads_routing_witness:
  "compat_loads (\<lambda>d. Inr (PStr ''legacy'')) (\<lambda>d. Inl DecodeError) [0x80, 0x04, 0x4E, 0x2E]
     = Inr (PStr ''legacy'')
   \<and> compat_loads (\<lambda>d. Inr (PStr ''legacy'')) (\<lambda>d. Inr (PStr ''primary'')) [0x7B, 0x7D]
     = Inr (PStr ''primary'')"
  using compat_loads_routing [of "[0x80, 0x04, 0x4E, 0x2E]" "\<lambda>d. Inr (PStr ''legacy'')" "\<lambda>d. Inl DecodeError"]
    compat_loads_routing [of "[0x7B, 0x7D]" "\<lambda>d. Inr (PStr ''legacy'')" "\<lambda>d. Inr (PStr ''primary'')"]
  by simp

section \<open>The query builder: operator and parameter by the type of the value\<close>


text \<open>
  C10. For a filter value whose type is none of null, string, integer, floating-point,
  boolean, object or array, the builder returns the equality operator and binds the string
  conversion \<open>str(value)\<close>.
\<close>

theorem where_value_fallback:
  "type_of v \<notin> {TNone, TStr, TInt, TFloat, TBool, TDict, TList}
   \<Longrightarrow> where_value lib v = (''= ?'', PStr (py_str lib v))"
  by (cases v) (simp_all add: where_value_def isinstance_def)

theorem where_value_fallback_witness:
  "type_of (PObj 7) \<notin> {TNone, TStr, TInt, TFloat, TBool, TDict, TList}
   \<and> where_value lib0 (PObj 7) = (''= ?'', PStr ''obj'')"
  using where_value_fallback [of "PObj 7" lib0]
  by (simp add: lib0_def)

section \<open>The query builder: the text and the parameters of the predicate\<close>

lemma predicate_step_eq:
  "predicate_step lib (p, vs) item =
     (p @ item_clause lib item @ ''AND '', vs @ [snd (where_value lib (snd item))])"
  by (cases item; cases "where_value lib (snd item)")
     (simp add: predicate_step_def item_clause_def clause_text_def)

lemma foldl_predicate_step:
  "foldl (predicate_step lib) (p, vs) f =
     (p @ concat (map (\<lambda>item. item_clause lib item @ ''AND '') f),
      vs @ map (\<lambda>item. snd (where_value lib (snd item))) f)"
  by (induction f arbitrary: p vs) (simp_all add: predicate_step_eq)

lemma drop_last4_append: "4 \<le> length t \<Longrightarrow> drop_last4 (s @ t) = s @ drop_last4 t"
  by (simp add: drop_last4_def)

lemma drop_last4_and: "drop_last4 (c @ ''AND '') = c"
  by (simp add: drop_last4_def)

lemma drop_last4_concat:
  "cs \<noteq> [] \<Longrightarrow> drop_last4 (concat (map (\<lambda>c. c @ ''AND '') cs)) = and_join cs"
proof (induction cs rule: and_join.induct)
  case 1
  then show ?case by simp
next
  case (2 c)
  show ?case by (simp add: drop_last4_and)
next
  case (3 c d cs)
  have "4 \<le> length (concat (map (\<lambda>c. c @ ''AND '') (d # cs)))"
    by simp
  then have "drop_last4 (c @ ''AND '' @ concat (map (\<lambda>c. c @ ''AND '') (d # cs)))
               = c @ ''AND '' @ drop_last4 (concat (map (\<lambda>c. c @ ''AND '') (d # cs)))"
    using drop_last4_append [of "concat (map (\<lambda>c. c @ ''AND '') (d # cs))" "c @ ''AND ''"]
    by simp
  with 3 show ?case by simp
qed

lemma metadata_predicate_text:
  "fst (metadata_predicate lib f) = and_join (map (item_clause lib) f)"
proof (cases f)
  case Nil
  then show ?thesis by (simp add: metadata_predicate_def)
next
  case (Cons a as)
  have ne: "concat (map (\<lambda>item. item_clause lib item @ ''AND '') f) \<noteq> []"
    using Cons by simp
  have "concat (map (\<lambda>item. item_clause lib item @ ''AND '') f)
          = concat (map (\<lambda>c. c @ ''AND '') (map (item_clause lib) f))"
    by (simp add: comp_def)
  moreover have "map (item_clause lib) f \<noteq> []" using Cons by simp
  ultimately show ?thesis
    using ne drop_last4_concat [of "map (item_clause lib) f"]
    by (simp add: metadata_predicate_def foldl_predicate_step)
qed

lemma metadata_predicate_values:
  "snd (metadata_predicate lib f) = map (\<lambda>item. snd (where_value lib (snd item))) f"
  by (simp add: metadata_predicate_def foldl_predicate_step)

lemma where_value_operator:
  "fst (where_value lib v) = (if v = PNone then ''IS ?'' else ''= ?'')"
  by (simp add: where_value_def)

text \<open>
  C7. A null filter value gives the predicate \<open>IS ?\<close> binding null; an object or array
  gives \<open>= ?\<close> binding \<open>json.dumps\<close> of the value with the separators \<open>,\<close> and \<open>:\<close>, which
  hold no whitespace. The predicate is the conjuncts of the keys joined by \<open>AND\<close>, the
  parameters are the bound values in the order of the keys, and the text of the predicate
  depends on the keys and on which values are null only: no value is written into it.
\<close>

theorem metadata_predicate_parameterized:
  "where_value lib PNone = (''IS ?'', PNone)
   \<and> where_value lib (PDict kvs) = (''= ?'', PStr (json_dumps lib '','' '':'' (PDict kvs)))
   \<and> where_value lib (PList xs) = (''= ?'', PStr (json_dumps lib '','' '':'' (PList xs)))
   \<and> fst (metadata_predicate lib f) = and_join (map (item_clause lib) f)
   \<and> snd (metadata_predicate lib f) = map (\<lambda>item. snd (where_value lib (snd item))) f
   \<and> (\<forall>lib' g. map fst g = map fst f \<and> map (\<lambda>item. snd item = PNone) g = map (\<lambda>item. snd item = PNone) f
        \<longrightarrow> fst (metadata_predicate lib' g) = fst (metadata_predicate lib f))"
proof -
  have "map (item_clause lib') g = map (item_clause lib) f"
    if "map fst g = map fst f" "map (\<lambda>item. snd item = PNone) g = map (\<lambda>item. snd item = PNone) f"
    for lib' g
    using that
  proof (induction g arbitrary: f)
    case Nil
    then show ?case by simp
  next
    case (Cons a g)
    then obtain b f' where f: "f = b # f'" by (cases f) auto
    with Cons.prems have "fst a = fst b" "(snd a = PNone) = (snd b = PNone)"
      "map fst g = map fst f'" "map (\<lambda>item. snd item = PNone) g = map (\<lambda>item. snd item = PNone) f'"
      by auto
    with Cons.IH [of f'] f show ?case
      by (simp add: item_clause_def where_value_operator)
  qed
  note key = this
  have indep: "\<forall>lib' g. map fst g = map fst f
        \<and> map (\<lambda>item. snd item = PNone) g = map (\<lambda>item. snd item = PNone) f
        \<longrightarrow> fst (metadata_predicate lib' g) = fst (metadata_predicate lib f)"
  proof (intro allI impI)
    fix lib' g
    assume "map fst g = map fst f
        \<and> map (\<lambda>item. snd item = PNone) g = map (\<lambda>item. snd item = PNone) f"
    then have "map (item_clause lib') g = map (item_clause lib) f"
      using key [of g lib'] by simp
    then show "fst (metadata_predicate lib' g) = fst (metadata_predicate lib f)"
      by (simp only: metadata_predicate_text)
  qed
  have "where_value lib PNone = (''IS ?'', PNone)"
    by (simp add: where_value_def)
  moreover have "where_value lib (PDict kvs) = (''= ?'', PStr (json_dumps lib '','' '':'' (PDict kvs)))"
    by (simp add: where_value_def isinstance_def)
  moreover have "where_value lib (PList xs) = (''= ?'', PStr (json_dumps lib '','' '':'' (PList xs)))"
    by (simp add: where_value_def isinstance_def)
  ultimately show ?thesis
    using indep metadata_predicate_text [of lib f] metadata_predicate_values [of lib f]
    by blast
qed

theorem metadata_predicate_parameterized_witness:
  "metadata_predicate lib0 [(''source'', PStr ''input''), (''score'', PNone), (''writes'', PDict [])]
     = (''json_extract(CAST(metadata AS TEXT), '' @ [quote] @ ''$.source'' @ [quote] @ '') = ? ''
        @ ''AND json_extract(CAST(metadata AS TEXT), '' @ [quote] @ ''$.score'' @ [quote] @ '') IS ? ''
        @ ''AND json_extract(CAST(metadata AS TEXT), '' @ [quote] @ ''$.writes'' @ [quote] @ '') = ? '',
        [PStr ''input'', PNone, PStr ''{}''])
   \<and> fst (metadata_predicate lib0 [(''source'', PStr ''x''), (''score'', PNone), (''writes'', PInt 3)])
     = fst (metadata_predicate lib0 [(''source'', PStr ''input''), (''score'', PNone), (''writes'', PDict [])])"
  using metadata_predicate_parameterized [of lib0 "[]" "[]"
      "[(''source'', PStr ''input''), (''score'', PNone), (''writes'', PDict [])]"]
  by (simp add: prod_eq_iff item_clause_def clause_text_def where_value_def isinstance_def lib0_def)

section \<open>The store: rows, primary key and order\<close>

lemma conn_saver_setup: "conn (saver_setup s) = conn s"
  by (simp add: saver_setup_def create_table_if_not_exists_def)

lemma put_success:
  assumes "thread_id cfg = Some tid" and "checkpoint_id cp = Inr cid"
  shows "put srd s cfg cp md =
           (Inr \<lparr>thread_id = Some tid, thread_ts = Some cid\<rparr>,
            (saver_setup s)\<lparr>conn := insert_or_replace (put_row srd tid cid cfg cp md) (conn s)\<rparr>)"
  using assms by (simp add: put_def Let_def put_row_def conn_saver_setup)

lemma put_conn_cases:
  "conn (snd (put srd s cfg cp md)) = conn s
   \<or> (\<exists>r. conn (snd (put srd s cfg cp md)) = insert_or_replace r (conn s))"
  by (auto simp add: put_def Let_def conn_saver_setup split: option.splits sum.splits)

lemma row_key_put_row: "row_key (put_row srd tid cid cfg cp md) = (tid, cid)"
  by (simp add: row_key_def put_row_def)

lemma primary_key_insert:
  assumes "primary_key_ok rows"
  shows "primary_key_ok (insert_or_replace r rows)"
proof -
  have "distinct (map row_key (filter (\<lambda>x. row_key x \<noteq> row_key r) rows))"
    using assms by (simp add: primary_key_ok_def distinct_map_filter)
  moreover have "row_key r \<notin> set (map row_key (filter (\<lambda>x. row_key x \<noteq> row_key r) rows))"
    by auto
  ultimately show ?thesis
    by (simp add: primary_key_ok_def insert_or_replace_def)
qed

lemma filter_key_insert:
  "filter (\<lambda>x. row_key x = row_key r) (insert_or_replace r rows) = [r]"
proof -
  have "filter (\<lambda>x. row_key x = row_key r) (filter (\<lambda>x. row_key x \<noteq> row_key r) rows) = []"
    by (induction rows) auto
  then show ?thesis by (simp add: insert_or_replace_def)
qed

lemma filter_other_insert:
  "filter (\<lambda>x. row_key x \<noteq> row_key r) (insert_or_replace r rows)
     = filter (\<lambda>x. row_key x \<noteq> row_key r) rows"
  by (simp add: insert_or_replace_def)

lemma set_insert_or_replace:
  "set (insert_or_replace r rows) = insert r {x \<in> set rows. row_key x \<noteq> row_key r}"
  by (auto simp add: insert_or_replace_def)

lemma length_insert_collide:
  assumes "primary_key_ok rows" and "row_key r \<in> row_key ` set rows"
  shows "length (insert_or_replace r rows) = length rows"
proof -
  have "length (filter (\<lambda>x. row_key x = row_key r) rows) = 1"
    using assms unfolding primary_key_ok_def
  proof (induction rows)
    case Nil
    then show ?case by simp
  next
    case (Cons a rows)
    show ?case
    proof (cases "row_key a = row_key r")
      case True
      with Cons.prems have "row_key r \<notin> row_key ` set rows" by auto
      then have "\<forall>x\<in>set rows. row_key x \<noteq> row_key r"
        by (metis imageI)
      then have "filter (\<lambda>x. row_key x = row_key r) rows = []"
        by (simp add: filter_empty_conv)
      with True show ?thesis by simp
    next
      case False
      with Cons show ?thesis by auto
    qed
  qed
  moreover have "length rows = length (filter (\<lambda>x. row_key x = row_key r) rows)
                   + length (filter (\<lambda>x. row_key x \<noteq> row_key r) rows)"
    using sum_length_filter_compl [of "\<lambda>x. row_key x = row_key r" rows] by simp
  ultimately show ?thesis by (simp add: insert_or_replace_def)
qed

lemma primary_key_unique_row:
  assumes "primary_key_ok rows" "a \<in> set rows" "b \<in> set rows" "row_key a = row_key b"
  shows "a = b"
  using assms by (auto simp add: primary_key_ok_def distinct_map dest: inj_onD)

lemma get_tuple_state: "snd (get_tuple srd s cfg) = saver_setup s"
  by (simp add: get_tuple_def Let_def split: option.splits sum.splits)

lemma saver_list_state: "snd (saver_list srd s cfg before limit) = saver_setup s"
  by (simp add: saver_list_def Let_def split: option.splits sum.splits)

lemma search_conn: "conn (snd (search srd eng lib s f before limit)) = conn s"
  by (simp add: search_def Let_def conn_saver_setup split: option.splits sum.splits prod.splits)

text \<open>
  C9. A locator whose \<open>thread_ts\<close> is present but empty is treated by \<open>get_tuple\<close> as a
  locator without \<open>thread_ts\<close>: the result and the state are those of the lookup of the
  latest checkpoint of the thread, and the row with the empty id is not looked up.
\<close>

theorem get_tuple_falsy_checkpoint_id:
  "get_tuple srd s (cfg\<lparr>thread_ts := Some ''''\<rparr>) = get_tuple srd s (cfg\<lparr>thread_ts := None\<rparr>)"
  by (simp add: get_tuple_def truthy_text_def)

theorem get_tuple_falsy_checkpoint_id_witness:
  "get_tuple serde0 stE loc1e = get_tuple serde0 stE loc1
   \<and> fst (get_tuple serde0 stE loc1e)
       = Inr (Some \<lparr>config = \<lparr>thread_id = Some ''1'', thread_ts = Some ''a''\<rparr>,
                    checkpoint = cpA, metadata = md2, parent_config = None\<rparr>)"
proof -
  have "loc1\<lparr>thread_ts := Some ''''\<rparr> = loc1e" "loc1\<lparr>thread_ts := None\<rparr> = loc1"
    by (simp_all add: loc1_def loc1e_def)
  with get_tuple_falsy_checkpoint_id [of serde0 stE loc1]
  have "get_tuple serde0 stE loc1e = get_tuple serde0 stE loc1" by simp
  moreover have "fst (get_tuple serde0 stE loc1)
       = Inr (Some \<lparr>config = \<lparr>thread_id = Some ''1'', thread_ts = Some ''a''\<rparr>,
                    checkpoint = cpA, metadata = md2, parent_config = None\<rparr>)"
    by code_simp
  ultimately show ?thesis by simp
qed

lemma set_order_desc: "set (order_by_thread_ts_desc rows) = set rows"
  by (simp add: order_by_thread_ts_desc_def)

lemma length_order_desc: "length (order_by_thread_ts_desc rows) = length rows"
  by (simp add: order_by_thread_ts_desc_def)

lemma order_desc_sorted:
  "sorted_wrt (\<lambda>a b. r_thread_ts b \<le> r_thread_ts a) (order_by_thread_ts_desc rows)"
proof -
  have "sorted (map r_thread_ts (sort_key r_thread_ts rows))"
    by (rule sorted_sort_key)
  then have "sorted_wrt (\<lambda>a b. r_thread_ts a \<le> r_thread_ts b) (sort_key r_thread_ts rows)"
    by (simp add: sorted_wrt_map)
  then show ?thesis
    by (simp add: order_by_thread_ts_desc_def sorted_wrt_rev)
qed

lemma order_desc_strict:
  assumes "distinct (map r_thread_ts rows)"
  shows "sorted_wrt (\<lambda>a b. r_thread_ts b < r_thread_ts a) (order_by_thread_ts_desc rows)"
proof -
  have "sorted (map r_thread_ts (sort_key r_thread_ts rows))"
    by (rule sorted_sort_key)
  moreover have "distinct (map r_thread_ts (sort_key r_thread_ts rows))"
    using assms by (simp add: distinct_map)
  ultimately have "sorted_wrt (<) (map r_thread_ts (sort_key r_thread_ts rows))"
    by (simp add: strict_sorted_iff)
  then have "sorted_wrt (\<lambda>a b. r_thread_ts a < r_thread_ts b) (sort_key r_thread_ts rows)"
    by (simp add: sorted_wrt_map)
  then show ?thesis
    by (simp add: order_by_thread_ts_desc_def sorted_wrt_rev)
qed

lemma thread_rows_distinct:
  assumes "primary_key_ok rows"
  shows "distinct (map r_thread_ts (filter (\<lambda>r. r_thread_id r = tid \<and> P r) rows))"
proof -
  have d: "distinct (map row_key (filter (\<lambda>r. r_thread_id r = tid \<and> P r) rows))"
    using assms by (simp add: primary_key_ok_def distinct_map_filter)
  have "map row_key (filter (\<lambda>r. r_thread_id r = tid \<and> P r) rows)
          = map (\<lambda>x. (tid, x)) (map r_thread_ts (filter (\<lambda>r. r_thread_id r = tid \<and> P r) rows))"
    by (induction rows) (auto simp add: row_key_def)
  with d have "distinct (map (\<lambda>x. (tid, x))
      (map r_thread_ts (filter (\<lambda>r. r_thread_id r = tid \<and> P r) rows)))"
    by (simp only:)
  then show ?thesis
    using distinct_map [of "\<lambda>x. (tid, x)"] by blast
qed




lemma row_tuple_config:
  "row_tuple srd r = Inr t
   \<Longrightarrow> config t = \<lparr>thread_id = Some (r_thread_id r), thread_ts = Some (r_thread_ts r)\<rparr>"
  by (auto simp add: row_tuple_def make_tuple_def split: sum.splits)

lemma fst_yield_rows_Cons:
  "fst (yield_rows srd (r # rs))
     = (case row_tuple srd r of Inl e \<Rightarrow> [] | Inr t \<Rightarrow> t # fst (yield_rows srd rs))"
  by (simp split: sum.splits prod.splits)

lemma snd_yield_rows_Cons:
  "snd (yield_rows srd (r # rs))
     = (case row_tuple srd r of Inl e \<Rightarrow> Some e | Inr t \<Rightarrow> snd (yield_rows srd rs))"
  by (simp split: sum.splits prod.splits)

lemma yield_rows_prefix:
  "map config (fst (yield_rows srd rows))
     = map (\<lambda>r. \<lparr>thread_id = Some (r_thread_id r), thread_ts = Some (r_thread_ts r)\<rparr>)
         (take (length (fst (yield_rows srd rows))) rows)"
proof (induction rows)
  case Nil
  then show ?case by simp
next
  case (Cons r rows)
  show ?case
  proof (cases "row_tuple srd r")
    case (Inl e)
    then show ?thesis by simp
  next
    case (Inr t)
    with Cons row_tuple_config [OF Inr] show ?thesis
      by (simp only: fst_yield_rows_Cons) simp
  qed
qed


lemma yield_rows_ts:
  "map tuple_ts (fst (yield_rows srd rows))
     = map r_thread_ts (take (length (fst (yield_rows srd rows))) rows)"
proof -
  have "map tuple_ts (fst (yield_rows srd rows)) = map (\<lambda>c. case thread_ts c of None \<Rightarrow> [] | Some x \<Rightarrow> x)
          (map config (fst (yield_rows srd rows)))"
    by (simp add: tuple_ts_def comp_def)
  then show ?thesis
    by (simp add: yield_rows_prefix comp_def)
qed



section \<open>Listing a thread\<close>

lemma yield_rows_sorted:
  assumes "sorted_wrt (\<lambda>a b. r_thread_ts b < r_thread_ts a) rows"
  shows "sorted_wrt (\<lambda>a b. tuple_ts b < tuple_ts a) (fst (yield_rows srd rows))"
proof -
  let ?ys = "fst (yield_rows srd rows)"
  from assms have "sorted_wrt (\<lambda>a b. r_thread_ts b < r_thread_ts a) (take (length ?ys) rows)"
    by (rule sorted_wrt_take)
  then have "sorted_wrt (\<lambda>a b. b < a) (map r_thread_ts (take (length ?ys) rows))"
    by (simp add: sorted_wrt_map)
  then have "sorted_wrt (\<lambda>a b. b < a) (map tuple_ts ?ys)"
    by (simp only: yield_rows_ts)
  then show ?thesis
    by (simp add: sorted_wrt_map)
qed







lemma saver_list_fst:
  assumes "thread_id cfg = Some tid"
  shows "fst (saver_list srd s cfg before limit) =
           (case before of
              None \<Rightarrow> yield_rows srd (list_query (conn s) tid None limit)
            | Some b \<Rightarrow>
                (case thread_ts b of
                   None \<Rightarrow> ([], Some (KeyError ''thread_ts''))
                 | Some x \<Rightarrow> yield_rows srd (list_query (conn s) tid (Some x) limit)))"
  using assms by (simp add: saver_list_def Let_def conn_saver_setup split: option.splits)




section \<open>Reading a checkpoint\<close>

lemma distinct_singleton_set:
  assumes "distinct xs" and "set xs = {a}"
  shows "xs = [a]"
proof -
  from assms have "length xs = 1"
    using distinct_card [of xs] by simp
  then obtain b where "xs = [b]"
    by (cases xs) auto
  with assms(2) show ?thesis by simp
qed

lemma primary_key_distinct_rows: "primary_key_ok rows \<Longrightarrow> distinct rows"
  by (simp add: primary_key_ok_def distinct_map)

lemma filter_key_unique:
  assumes "primary_key_ok rows" and "r \<in> set rows"
  shows "filter (\<lambda>x. row_key x = row_key r) rows = [r]"
proof (rule distinct_singleton_set)
  show "distinct (filter (\<lambda>x. row_key x = row_key r) rows)"
    using primary_key_distinct_rows [OF assms(1)] by simp
  show "set (filter (\<lambda>x. row_key x = row_key r) rows) = {r}"
    using assms primary_key_unique_row [OF assms(1)] by auto
qed

lemma fetchone_limit1: "fetchone (sql_limit 1 xs) = fetchone xs"
  by (cases xs) (simp_all add: fetchone_def sql_limit_def)

lemma order_desc_head:
  assumes "order_by_thread_ts_desc rows = h # t"
  shows "h \<in> set rows \<and> (\<forall>y\<in>set rows. r_thread_ts y \<le> r_thread_ts h)"
proof -
  have "set (h # t) = set rows"
    using assms set_order_desc [of rows] by simp
  moreover have "sorted_wrt (\<lambda>a b. r_thread_ts b \<le> r_thread_ts a) (h # t)"
    using assms order_desc_sorted [of rows] by simp
  ultimately show ?thesis by auto
qed

lemma get_tuple_latest:
  assumes tid: "thread_id cfg = Some tid" and nots: "\<not> truthy_text (thread_ts cfg)"
    and pk: "primary_key_ok (conn s)"
    and r: "r \<in> set (conn s)" "r_thread_id r = tid"
    and mx: "\<forall>x\<in>set (conn s). r_thread_id x = tid \<longrightarrow> r_thread_ts x \<le> r_thread_ts r"
  shows "fst (get_tuple srd s cfg) = returned (row_tuple srd r)"
proof -
  let ?sel = "filter (\<lambda>x. r_thread_id x = tid) (conn s)"
  from r have rin: "r \<in> set ?sel" by simp
  then have "order_by_thread_ts_desc ?sel \<noteq> []"
    using set_order_desc [of ?sel] by auto
  then obtain h t where ht: "order_by_thread_ts_desc ?sel = h # t"
    by (cases "order_by_thread_ts_desc ?sel") auto
  from order_desc_head [OF ht] have h: "h \<in> set ?sel"
    and hmax: "\<forall>y\<in>set ?sel. r_thread_ts y \<le> r_thread_ts h" by auto
  from hmax rin have "r_thread_ts r \<le> r_thread_ts h" by blast
  moreover from h mx have "r_thread_ts h \<le> r_thread_ts r" by simp
  ultimately have "r_thread_ts h = r_thread_ts r" by simp
  with h r have "row_key h = row_key r" by (simp add: row_key_def)
  with pk h r have "h = r"
    using primary_key_unique_row [of "conn s" h r] by simp
  with ht have "fetchone (sql_limit 1 (order_by_thread_ts_desc ?sel)) = Some r"
    by (simp add: sql_limit_def fetchone_def)
  with tid nots show ?thesis
    by (simp add: get_tuple_def Let_def conn_saver_setup returned_def split: sum.splits)
qed

lemma get_tuple_latest_none:
  assumes tid: "thread_id cfg = Some tid" and nots: "\<not> truthy_text (thread_ts cfg)"
    and no: "\<forall>x\<in>set (conn s). r_thread_id x \<noteq> tid"
  shows "fst (get_tuple srd s cfg) = Inr None"
proof -
  from no have "filter (\<lambda>x. r_thread_id x = tid) (conn s) = []"
    by (simp add: filter_empty_conv)
  with tid nots show ?thesis
    by (simp add: get_tuple_def Let_def conn_saver_setup order_by_thread_ts_desc_def
        sql_limit_def fetchone_def)
qed

lemma get_tuple_exact:
  assumes tid: "thread_id cfg = Some tid" and ts: "thread_ts cfg = Some ts" "ts \<noteq> []"
    and pk: "primary_key_ok (conn s)"
    and r: "r \<in> set (conn s)" "row_key r = (tid, ts)"
  shows "fst (get_tuple srd s cfg) = returned (make_tuple srd cfg (Some tid) r)"
proof -
  have "(\<lambda>x. r_thread_id x = tid \<and> Some (r_thread_ts x) = thread_ts cfg)
          = (\<lambda>x. row_key x = row_key r)"
    using ts r by (auto simp add: row_key_def)
  then have "filter (\<lambda>x. r_thread_id x = tid \<and> Some (r_thread_ts x) = thread_ts cfg) (conn s) = [r]"
    using filter_key_unique [OF pk r(1)] by simp
  with tid ts show ?thesis
    by (simp add: get_tuple_def Let_def conn_saver_setup truthy_text_def fetchone_def
        returned_def split: sum.splits)
qed

lemma get_tuple_exact_none:
  assumes tid: "thread_id cfg = Some tid" and ts: "thread_ts cfg = Some ts" "ts \<noteq> []"
    and no: "(tid, ts) \<notin> row_key ` set (conn s)"
  shows "fst (get_tuple srd s cfg) = Inr None"
proof -
  from no have "\<forall>x\<in>set (conn s). \<not> (r_thread_id x = tid \<and> Some (r_thread_ts x) = thread_ts cfg)"
    using ts by (auto simp add: row_key_def image_iff)
  then have "filter (\<lambda>x. r_thread_id x = tid \<and> Some (r_thread_ts x) = thread_ts cfg) (conn s) = []"
    by (simp add: filter_empty_conv)
  with tid ts show ?thesis
    by (simp add: get_tuple_def Let_def conn_saver_setup truthy_text_def fetchone_def)
qed

lemma put_rows:
  assumes "thread_id cfg = Some tid" and "checkpoint_id cp = Inr cid"
  shows "conn (snd (put srd s cfg cp md)) = insert_or_replace (put_row srd tid cid cfg cp md) (conn s)"
  using put_success [OF assms] by simp

lemma put_primary_key:
  assumes "primary_key_ok (conn s)"
  shows "primary_key_ok (conn (snd (put srd s cfg cp md)))"
  using put_conn_cases [of srd s cfg cp md] assms primary_key_insert by auto

lemma put_latest:
  assumes tid: "thread_id cfg = Some tid" and cid: "checkpoint_id cp = Inr cid"
    and below: "\<forall>x\<in>set (conn s). r_thread_id x = tid \<longrightarrow> r_thread_ts x \<le> cid"
  shows "put_row srd tid cid cfg cp md \<in> set (conn (snd (put srd s cfg cp md)))
       \<and> (\<forall>x\<in>set (conn (snd (put srd s cfg cp md))). r_thread_id x = tid \<longrightarrow> r_thread_ts x \<le> cid)"
  using below by (auto simp add: put_rows [OF tid cid] set_insert_or_replace put_row_def)

section \<open>Writing checkpoints\<close>

lemma run_puts_primary_key:
  "primary_key_ok (conn s) \<Longrightarrow> primary_key_ok (conn (run_puts srd s calls))"
  by (induction calls arbitrary: s) (simp_all add: put_primary_key)

lemma run_puts_last:
  assumes "calls \<noteq> []"
    and "\<forall>c\<in>set calls. thread_id (fst c) = Some tid"
    and "map (\<lambda>c. checkpoint_id (fst (snd c))) calls = map Inr ids"
    and "sorted_wrt (<) ids"
    and "\<forall>x\<in>set (conn s). r_thread_id x = tid \<longrightarrow> r_thread_ts x < hd ids"
  shows "put_row srd tid (last ids) (fst (last calls)) (fst (snd (last calls))) (snd (snd (last calls)))
           \<in> set (conn (run_puts srd s calls))
       \<and> (\<forall>x\<in>set (conn (run_puts srd s calls)). r_thread_id x = tid \<longrightarrow> r_thread_ts x \<le> last ids)"
  using assms
proof (induction calls arbitrary: s ids)
  case Nil
  then show ?case by simp
next
  case (Cons c calls)
  from Cons.prems(3) obtain i ids' where ids: "ids = i # ids'"
    and ci: "checkpoint_id (fst (snd c)) = Inr i"
    and rest: "map (\<lambda>c. checkpoint_id (fst (snd c))) calls = map Inr ids'"
    by (cases ids) auto
  let ?s1 = "snd (put srd s (fst c) (fst (snd c)) (snd (snd c)))"
  from Cons.prems(2) have tid: "thread_id (fst c) = Some tid" by simp
  from Cons.prems(5) ids have below: "\<forall>x\<in>set (conn s). r_thread_id x = tid \<longrightarrow> r_thread_ts x \<le> i"
    by auto
  note step = put_latest [OF tid ci below, of srd "snd (snd c)"]
  show ?case
  proof (cases "calls = []")
    case True
    with rest have "ids' = []" by simp
    with True ids step show ?thesis by simp
  next
    case False
    with rest obtain j ids'' where ids': "ids' = j # ids''" by (cases ids') auto
    with Cons.prems(4) ids have "i < j" by simp
    with step ids' have "\<forall>x\<in>set (conn ?s1). r_thread_id x = tid \<longrightarrow> r_thread_ts x < hd ids'"
      by auto
    moreover from Cons.prems(4) ids have "sorted_wrt (<) ids'" by simp
    moreover from Cons.prems(2) have "\<forall>c\<in>set calls. thread_id (fst c) = Some tid" by simp
    ultimately have "put_row srd tid (last ids') (fst (last calls)) (fst (snd (last calls)))
           (snd (snd (last calls))) \<in> set (conn (run_puts srd ?s1 calls))
       \<and> (\<forall>x\<in>set (conn (run_puts srd ?s1 calls)). r_thread_id x = tid \<longrightarrow> r_thread_ts x \<le> last ids')"
      using Cons.IH [OF False _ rest, of ?s1] by blast
    with False ids ids' show ?thesis by simp
  qed
qed

lemma row_tuple_put_row:
  assumes "loads srd (dumps srd cp) = Inr cp" and "loads srd (dumps srd md) = Inr md"
  shows "row_tuple srd (put_row srd tid cid cfg cp md)
           = Inr \<lparr>config = \<lparr>thread_id = Some tid, thread_ts = Some cid\<rparr>, checkpoint = cp,
                  metadata = md, parent_config = parent_locator (Some tid) (thread_ts cfg)\<rparr>"
  using assms by (simp add: row_tuple_def make_tuple_def put_row_def load_metadata_def)

text \<open>
  C2. For a locator with \<open>thread_id\<close> and a checkpoint with a (string) \<open>id\<close>, \<open>put\<close>
  returns the locator of \<open>thread_id\<close> and the checkpoint's id, and afterwards the table
  holds exactly one row with that key: its parent is the \<open>thread_ts\<close> of the incoming
  locator (null when absent), its columns are the serialized checkpoint and metadata.
  Consequently, after \<open>put\<close> of checkpoint \<open>a\<close> under thread \<open>1\<close> and \<open>put\<close> of \<open>b\<close> with the
  locator of \<open>a\<close>, on a store whose rows of thread \<open>1\<close> have no id above \<open>b\<close> (a fresh one
  for instance) and with a serializer that reads back what it wrote, \<open>get_tuple\<close> for
  thread \<open>1\<close> returns checkpoint \<open>b\<close> with the parent locator of \<open>a\<close>.
\<close>

theorem put_stores_row_and_chains:
  "(\<forall>tid cid. thread_id cfg = Some tid \<and> checkpoint_id cp = Inr cid \<longrightarrow>
      fst (put srd s cfg cp md) = Inr \<lparr>thread_id = Some tid, thread_ts = Some cid\<rparr>
      \<and> filter (\<lambda>r. row_key r = (tid, cid)) (conn (snd (put srd s cfg cp md)))
          = [\<lparr>r_thread_id = tid, r_thread_ts = cid, r_parent_ts = thread_ts cfg,
              r_checkpoint = dumps srd cp, r_metadata = Some (dumps srd md)\<rparr>])
   \<and> (checkpoint_id ca = Inr ''a'' \<and> checkpoint_id cb = Inr ''b''
        \<and> loads srd (dumps srd cb) = Inr cb \<and> loads srd (dumps srd m2) = Inr m2
        \<and> primary_key_ok (conn s)
        \<and> (\<forall>r\<in>set (conn s). r_thread_id r = ''1'' \<longrightarrow> r_thread_ts r \<le> ''b'') \<longrightarrow>
      fst (get_tuple srd
             (snd (put srd (snd (put srd s \<lparr>thread_id = Some ''1'', thread_ts = None\<rparr> ca m1))
                     \<lparr>thread_id = Some ''1'', thread_ts = Some ''a''\<rparr> cb m2))
             \<lparr>thread_id = Some ''1'', thread_ts = None\<rparr>)
        = Inr (Some \<lparr>config = \<lparr>thread_id = Some ''1'', thread_ts = Some ''b''\<rparr>,
                     checkpoint = cb, metadata = m2,
                     parent_config = Some \<lparr>thread_id = Some ''1'', thread_ts = Some ''a''\<rparr>\<rparr>))"
proof (intro conjI allI impI)
  fix tid cid
  assume a: "thread_id cfg = Some tid \<and> checkpoint_id cp = Inr cid"
  then show "fst (put srd s cfg cp md) = Inr \<lparr>thread_id = Some tid, thread_ts = Some cid\<rparr>"
    by (simp add: put_success)
  from a have "conn (snd (put srd s cfg cp md))
                 = insert_or_replace (put_row srd tid cid cfg cp md) (conn s)"
    by (simp add: put_rows)
  then show "filter (\<lambda>r. row_key r = (tid, cid)) (conn (snd (put srd s cfg cp md)))
          = [\<lparr>r_thread_id = tid, r_thread_ts = cid, r_parent_ts = thread_ts cfg,
              r_checkpoint = dumps srd cp, r_metadata = Some (dumps srd md)\<rparr>]"
    using filter_key_insert [of "put_row srd tid cid cfg cp md" "conn s"]
    by (simp add: row_key_put_row) (simp add: put_row_def)
next
  let ?l = "\<lparr>thread_id = Some ''1'', thread_ts = None\<rparr>"
  let ?la = "\<lparr>thread_id = Some ''1'', thread_ts = Some ''a''\<rparr>"
  let ?s1 = "snd (put srd s ?l ca m1)"
  let ?s2 = "snd (put srd ?s1 ?la cb m2)"
  assume a: "checkpoint_id ca = Inr ''a'' \<and> checkpoint_id cb = Inr ''b''
        \<and> loads srd (dumps srd cb) = Inr cb \<and> loads srd (dumps srd m2) = Inr m2
        \<and> primary_key_ok (conn s)
        \<and> (\<forall>r\<in>set (conn s). r_thread_id r = ''1'' \<longrightarrow> r_thread_ts r \<le> ''b'')"
  then have ca: "checkpoint_id ca = Inr ''a''" and cb: "checkpoint_id cb = Inr ''b''"
    and lc: "loads srd (dumps srd cb) = Inr cb" and lm: "loads srd (dumps srd m2) = Inr m2"
    and pk: "primary_key_ok (conn s)"
    and below: "\<forall>r\<in>set (conn s). r_thread_id r = ''1'' \<longrightarrow> r_thread_ts r \<le> ''b''"
    by blast+
  have ab: "''a'' \<le> ''b''" by simp
  have "conn ?s1 = insert_or_replace (put_row srd ''1'' ''a'' ?l ca m1) (conn s)"
    using ca by (simp add: put_rows)
  with below ab have below1: "\<forall>r\<in>set (conn ?s1). r_thread_id r = ''1'' \<longrightarrow> r_thread_ts r \<le> ''b''"
    by (auto simp add: set_insert_or_replace put_row_def)
  have pk2: "primary_key_ok (conn ?s2)"
    using pk by (intro put_primary_key)
  have "put_row srd ''1'' ''b'' ?la cb m2 \<in> set (conn ?s2)
       \<and> (\<forall>x\<in>set (conn ?s2). r_thread_id x = ''1'' \<longrightarrow> r_thread_ts x \<le> ''b'')"
    using put_latest [OF _ cb below1, of ?la srd m2] by simp
  then have "fst (get_tuple srd ?s2 ?l) = returned (row_tuple srd (put_row srd ''1'' ''b'' ?la cb m2))"
    using get_tuple_latest [of ?l "''1''" ?s2 "put_row srd ''1'' ''b'' ?la cb m2" srd] pk2
    by (simp add: truthy_text_def put_row_def)
  then show "fst (get_tuple srd ?s2 ?l)
        = Inr (Some \<lparr>config = \<lparr>thread_id = Some ''1'', thread_ts = Some ''b''\<rparr>,
                     checkpoint = cb, metadata = m2,
                     parent_config = Some \<lparr>thread_id = Some ''1'', thread_ts = Some ''a''\<rparr>\<rparr>)"
    using row_tuple_put_row [OF lc lm, of "''1''" "''b''" ?la]
    by (simp add: returned_def parent_locator_def truthy_text_def)
qed

theorem put_stores_row_and_chains_witness:
  "thread_id loc1a = Some ''1'' \<and> checkpoint_id cpB = Inr ''b''
   \<and> fst (put serde0 (init_saver []) loc1a cpB md2)
       = Inr \<lparr>thread_id = Some ''1'', thread_ts = Some ''b''\<rparr>
   \<and> filter (\<lambda>r. row_key r = (''1'', ''b'')) (conn (snd (put serde0 (init_saver []) loc1a cpB md2)))
       = [rowB]
   \<and> fst (get_tuple serde0 st2 loc1) = Inr (Some tupleB)"
proof -
  have h1: "thread_id loc1a = Some ''1''" by code_simp
  have h2: "checkpoint_id cpB = Inr ''b''" by code_simp
  have h3: "checkpoint_id cpA = Inr ''a''" by code_simp
  have h4: "loads serde0 (dumps serde0 cpB) = Inr cpB" by code_simp
  have h5: "loads serde0 (dumps serde0 md2) = Inr md2" by code_simp
  have h6: "primary_key_ok (conn (init_saver []))" by code_simp
  have h7: "\<forall>r\<in>set (conn (init_saver [])). r_thread_id r = ''1'' \<longrightarrow> r_thread_ts r \<le> ''b''"
    by (simp add: init_saver_def)
  have e: "\<lparr>r_thread_id = ''1'', r_thread_ts = ''b'', r_parent_ts = thread_ts loc1a,
            r_checkpoint = dumps serde0 cpB, r_metadata = Some (dumps serde0 md2)\<rparr> = rowB"
    by code_simp
  note t = put_stores_row_and_chains [where cfg = loc1a and cp = cpB and srd = serde0
      and s = "init_saver []" and md = md2 and ca = cpA and cb = cpB and ?m1.0 = md1 and ?m2.0 = md2]
  from t h1 h2 have p1: "fst (put serde0 (init_saver []) loc1a cpB md2)
       = Inr \<lparr>thread_id = Some ''1'', thread_ts = Some ''b''\<rparr>"
    by blast
  from t h1 h2 have "filter (\<lambda>r. row_key r = (''1'', ''b''))
        (conn (snd (put serde0 (init_saver []) loc1a cpB md2)))
       = [\<lparr>r_thread_id = ''1'', r_thread_ts = ''b'', r_parent_ts = thread_ts loc1a,
            r_checkpoint = dumps serde0 cpB, r_metadata = Some (dumps serde0 md2)\<rparr>]"
    by blast
  then have p2: "filter (\<lambda>r. row_key r = (''1'', ''b''))
        (conn (snd (put serde0 (init_saver []) loc1a cpB md2))) = [rowB]"
    by (simp only: e)
  from t h3 h2 h4 h5 h6 h7 have p3: "fst (get_tuple serde0 st2 loc1) = Inr (Some tupleB)"
    unfolding st2_def loc1_def loc1a_def tupleB_def by blast
  from h1 h2 p1 p2 p3 show ?thesis by blast
qed

text \<open>
  C3, amended. For a store that satisfies its primary key and a locator with
  \<open>thread_id\<close>: with a non-empty \<open>thread_ts\<close>, \<open>get_tuple\<close> returns the tuple of exactly the
  row with that key, built on the given locator, and \<open>None\<close> when there is no such row;
  with no \<open>thread_ts\<close> or an empty one it returns the tuple of the row of the thread with
  the greatest checkpoint id, and \<open>None\<close> when the thread has no row; and after a
  non-empty sequence of \<open>put\<close> calls to the thread with strictly increasing ids, all above
  the ids the thread had, \<open>get_tuple\<close> without \<open>thread_ts\<close> returns the tuple of the last
  call.
\<close>

theorem get_tuple_selects_row:
  assumes "thread_id cfg = Some tid" and "primary_key_ok (conn s)"
  shows "(\<forall>ts r. thread_ts cfg = Some ts \<and> ts \<noteq> [] \<and> r \<in> set (conn s) \<and> row_key r = (tid, ts) \<longrightarrow>
            fst (get_tuple srd s cfg) = returned (make_tuple srd cfg (Some tid) r))
       \<and> (\<forall>ts. thread_ts cfg = Some ts \<and> ts \<noteq> [] \<and> (tid, ts) \<notin> row_key ` set (conn s) \<longrightarrow>
            fst (get_tuple srd s cfg) = Inr None)
       \<and> (thread_ts cfg = None \<or> thread_ts cfg = Some [] \<longrightarrow>
            (\<forall>r\<in>set (conn s).
                r_thread_id r = tid
                \<and> (\<forall>x\<in>set (conn s). r_thread_id x = tid \<longrightarrow> r_thread_ts x \<le> r_thread_ts r) \<longrightarrow>
                fst (get_tuple srd s cfg) = returned (row_tuple srd r))
            \<and> ((\<forall>x\<in>set (conn s). r_thread_id x \<noteq> tid) \<longrightarrow> fst (get_tuple srd s cfg) = Inr None))
       \<and> (\<forall>(calls :: (locator \<times> pyval \<times> pyval) list) ids.
            calls \<noteq> [] \<and> (\<forall>c\<in>set calls. thread_id (fst c) = Some tid)
            \<and> map (\<lambda>c. checkpoint_id (fst (snd c))) calls = map Inr ids \<and> sorted_wrt (<) ids
            \<and> (\<forall>x\<in>set (conn s). r_thread_id x = tid \<longrightarrow> r_thread_ts x < hd ids) \<longrightarrow>
            fst (get_tuple srd (run_puts srd s calls) \<lparr>thread_id = Some tid, thread_ts = None\<rparr>)
              = returned (row_tuple srd
                  (put_row srd tid (last ids) (fst (last calls)) (fst (snd (last calls)))
                     (snd (snd (last calls))))))"
proof (intro conjI allI impI ballI)
  fix ts r
  assume "thread_ts cfg = Some ts \<and> ts \<noteq> [] \<and> r \<in> set (conn s) \<and> row_key r = (tid, ts)"
  then show "fst (get_tuple srd s cfg) = returned (make_tuple srd cfg (Some tid) r)"
    using get_tuple_exact [OF assms(1) _ _ assms(2), of ts r srd] by blast
next
  fix ts
  assume "thread_ts cfg = Some ts \<and> ts \<noteq> [] \<and> (tid, ts) \<notin> row_key ` set (conn s)"
  then show "fst (get_tuple srd s cfg) = Inr None"
    using get_tuple_exact_none [OF assms(1), of ts s srd] by blast
next
  fix r
  assume ts: "thread_ts cfg = None \<or> thread_ts cfg = Some []" and r: "r \<in> set (conn s)"
    and mx: "r_thread_id r = tid
             \<and> (\<forall>x\<in>set (conn s). r_thread_id x = tid \<longrightarrow> r_thread_ts x \<le> r_thread_ts r)"
  from ts have "\<not> truthy_text (thread_ts cfg)" by (auto simp add: truthy_text_def)
  with r mx show "fst (get_tuple srd s cfg) = returned (row_tuple srd r)"
    using get_tuple_latest [OF assms(1) _ assms(2), of r srd] by blast
next
  assume ts: "thread_ts cfg = None \<or> thread_ts cfg = Some []"
    and no: "\<forall>x\<in>set (conn s). r_thread_id x \<noteq> tid"
  from ts have "\<not> truthy_text (thread_ts cfg)" by (auto simp add: truthy_text_def)
  with no show "fst (get_tuple srd s cfg) = Inr None"
    using get_tuple_latest_none [OF assms(1), of s srd] by blast
next
  fix calls :: "(locator \<times> pyval \<times> pyval) list" and ids
  assume a: "calls \<noteq> [] \<and> (\<forall>c\<in>set calls. thread_id (fst c) = Some tid)
            \<and> map (\<lambda>c. checkpoint_id (fst (snd c))) calls = map Inr ids \<and> sorted_wrt (<) ids
            \<and> (\<forall>x\<in>set (conn s). r_thread_id x = tid \<longrightarrow> r_thread_ts x < hd ids)"
  let ?r = "put_row srd tid (last ids) (fst (last calls)) (fst (snd (last calls)))
              (snd (snd (last calls)))"
  let ?s' = "run_puts srd s calls"
  from a have "?r \<in> set (conn ?s')
       \<and> (\<forall>x\<in>set (conn ?s'). r_thread_id x = tid \<longrightarrow> r_thread_ts x \<le> last ids)"
    using run_puts_last [of calls tid ids s srd] by blast
  moreover have "primary_key_ok (conn ?s')"
    using assms(2) by (rule run_puts_primary_key)
  moreover have "r_thread_id ?r = tid" "r_thread_ts ?r = last ids"
    by (simp_all add: put_row_def)
  ultimately show "fst (get_tuple srd ?s' \<lparr>thread_id = Some tid, thread_ts = None\<rparr>)
                     = returned (row_tuple srd ?r)"
    using get_tuple_latest [of "\<lparr>thread_id = Some tid, thread_ts = None\<rparr>" tid ?s' ?r srd]
    by (simp add: truthy_text_def)
qed

theorem get_tuple_selects_row_witness:
  "thread_id loc1a = Some ''1'' \<and> primary_key_ok (conn st2)
   \<and> fst (get_tuple serde0 st2 loc1a)
       = Inr (Some \<lparr>config = loc1a, checkpoint = cpA, metadata = md1, parent_config = None\<rparr>)
   \<and> fst (get_tuple serde0 st2 locZ) = Inr None
   \<and> fst (get_tuple serde0 st2 loc1) = Inr (Some tupleB)
   \<and> fst (get_tuple serde0 st2 loc2) = Inr None
   \<and> fst (get_tuple serde0 (run_puts serde0 (init_saver []) calls2) loc1) = Inr (Some tupleB)"
proof -
  have pk: "primary_key_ok (conn st2)" by code_simp
  have pk0: "primary_key_ok (conn (init_saver []))" by code_simp
  have ia: "thread_id loc1a = Some ''1''" and iz: "thread_id locZ = Some ''1''"
    and i1: "thread_id loc1 = Some ''1''" and i2: "thread_id loc2 = Some ''2''"
    by code_simp+
  note ta = get_tuple_selects_row [OF ia pk, of serde0]
  note tz = get_tuple_selects_row [OF iz pk, of serde0]
  note tl = get_tuple_selects_row [OF i1 pk, of serde0]
  note tn = get_tuple_selects_row [OF i2 pk, of serde0]
  note ts = get_tuple_selects_row [OF i1 pk0, of serde0]
  have "thread_ts loc1a = Some ''a'' \<and> ''a'' \<noteq> [] \<and> rowA \<in> set (conn st2)
          \<and> row_key rowA = (''1'', ''a'')"
    by code_simp
  with ta [THEN conjunct1, rule_format, of "''a''" rowA]
  have "fst (get_tuple serde0 st2 loc1a) = returned (make_tuple serde0 loc1a (Some ''1'') rowA)" .
  moreover have "returned (make_tuple serde0 loc1a (Some ''1'') rowA)
      = Inr (Some \<lparr>config = loc1a, checkpoint = cpA, metadata = md1, parent_config = None\<rparr>)"
    by code_simp
  ultimately have p1: "fst (get_tuple serde0 st2 loc1a)
       = Inr (Some \<lparr>config = loc1a, checkpoint = cpA, metadata = md1, parent_config = None\<rparr>)"
    by simp
  have "thread_ts locZ = Some ''z'' \<and> ''z'' \<noteq> [] \<and> (''1'', ''z'') \<notin> row_key ` set (conn st2)"
    by code_simp
  with tz [THEN conjunct2, THEN conjunct1, rule_format, of "''z''"]
  have p2: "fst (get_tuple serde0 st2 locZ) = Inr None" .
  have l1: "thread_ts loc1 = None \<or> thread_ts loc1 = Some []" by code_simp
  have l2: "rowB \<in> set (conn st2)" by code_simp
  have l3: "r_thread_id rowB = ''1''
      \<and> (\<forall>x\<in>set (conn st2). r_thread_id x = ''1'' \<longrightarrow> r_thread_ts x \<le> r_thread_ts rowB)"
    by code_simp
  from tl [THEN conjunct2, THEN conjunct2, THEN conjunct1, THEN mp, OF l1, THEN conjunct1,
      THEN bspec, OF l2, THEN mp, OF l3]
  have "fst (get_tuple serde0 st2 loc1) = returned (row_tuple serde0 rowB)" .
  moreover have "returned (row_tuple serde0 rowB) = Inr (Some tupleB)" by code_simp
  ultimately have p3: "fst (get_tuple serde0 st2 loc1) = Inr (Some tupleB)" by simp
  have n1: "thread_ts loc2 = None \<or> thread_ts loc2 = Some []" by code_simp
  have n2: "\<forall>x\<in>set (conn st2). r_thread_id x \<noteq> ''2''" by code_simp
  from tn [THEN conjunct2, THEN conjunct2, THEN conjunct1, THEN mp, OF n1, THEN conjunct2,
      THEN mp, OF n2]
  have p4: "fst (get_tuple serde0 st2 loc2) = Inr None" .
  have s1: "calls2 \<noteq> [] \<and> (\<forall>c\<in>set calls2. thread_id (fst c) = Some ''1'')
            \<and> map (\<lambda>c. checkpoint_id (fst (snd c))) calls2 = map Inr [''a'', ''b'']
            \<and> sorted_wrt (<) [''a'', ''b'']
            \<and> (\<forall>x\<in>set (conn (init_saver [])). r_thread_id x = ''1'' \<longrightarrow> r_thread_ts x < hd [''a'', ''b''])"
    by code_simp
  from ts [THEN conjunct2, THEN conjunct2, THEN conjunct2, THEN spec, THEN spec, THEN mp, OF s1]
  have "fst (get_tuple serde0 (run_puts serde0 (init_saver []) calls2)
               \<lparr>thread_id = Some ''1'', thread_ts = None\<rparr>)
          = returned (row_tuple serde0
              (put_row serde0 ''1'' (last [''a'', ''b'']) (fst (last calls2)) (fst (snd (last calls2)))
                 (snd (snd (last calls2)))))" .
  moreover have "returned (row_tuple serde0
              (put_row serde0 ''1'' (last [''a'', ''b'']) (fst (last calls2)) (fst (snd (last calls2)))
                 (snd (snd (last calls2))))) = Inr (Some tupleB)"
    by code_simp
  ultimately have p5: "fst (get_tuple serde0 (run_puts serde0 (init_saver []) calls2) loc1)
      = Inr (Some tupleB)"
    by (simp add: loc1_def)
  from ia pk p1 p2 p3 p4 p5 show ?thesis by blast
qed

text \<open>
  The claim C3 as stated fails for a locator that carries the empty checkpoint id: the
  store holds the row with key \<open>("1", "")\<close>, and \<open>get_tuple\<close> returns the tuple of the row
  \<open>("1", "a")\<close> instead of the tuple of that row.
\<close>

theorem get_tuple_empty_id_counterexample:
  "thread_id loc1e = Some ''1'' \<and> thread_ts loc1e = Some ''''
   \<and> primary_key_ok (conn stE) \<and> rowE \<in> set (conn stE) \<and> row_key rowE = (''1'', '''')
   \<and> fst (get_tuple serde0 stE loc1e)
       = Inr (Some \<lparr>config = \<lparr>thread_id = Some ''1'', thread_ts = Some ''a''\<rparr>,
                    checkpoint = cpA, metadata = md2, parent_config = None\<rparr>)
   \<and> returned (make_tuple serde0 loc1e (Some ''1'') rowE)
       = Inr (Some \<lparr>config = loc1e, checkpoint = cpE, metadata = md1, parent_config = None\<rparr>)
   \<and> fst (get_tuple serde0 stE loc1e) \<noteq> returned (make_tuple serde0 loc1e (Some ''1'') rowE)"
  by code_simp

section \<open>The primary key under the operations\<close>

lemma filter_sorted_at_most_one:
  assumes "sorted_wrt (\<lambda>a b. f b < f a) xs"
  shows "length (filter (\<lambda>x. f x = (c :: string)) xs) \<le> 1"
  using assms
proof (induction xs)
  case Nil
  then show ?case by simp
next
  case (Cons x xs)
  show ?case
  proof (cases "f x = c")
    case True
    with Cons.prems have "\<forall>y\<in>set xs. f y \<noteq> c" by auto
    then have "filter (\<lambda>x. f x = c) xs = []" by (simp add: filter_empty_conv)
    with True show ?thesis by simp
  next
    case False
    with Cons show ?thesis by simp
  qed
qed

lemma yield_rows_filter_complete:
  assumes "snd (yield_rows srd rows) = None"
  shows "map Inr (filter (\<lambda>t. tuple_ts t = c) (fst (yield_rows srd rows)))
           = map (row_tuple srd) (filter (\<lambda>r. r_thread_ts r = c) rows)"
  using assms
proof (induction rows)
  case Nil
  then show ?case by simp
next
  case (Cons r rows)
  show ?case
  proof (cases "row_tuple srd r")
    case (Inl e)
    with Cons.prems show ?thesis by (simp add: snd_yield_rows_Cons del: yield_rows.simps)
  next
    case (Inr t)
    with Cons.prems have "snd (yield_rows srd rows) = None"
      by (simp add: snd_yield_rows_Cons del: yield_rows.simps)
    with Cons.IH have ih: "map Inr (filter (\<lambda>t. tuple_ts t = c) (fst (yield_rows srd rows)))
           = map (row_tuple srd) (filter (\<lambda>r. r_thread_ts r = c) rows)" by simp
    from row_tuple_config [OF Inr] have "tuple_ts t = r_thread_ts r"
      by (simp add: tuple_ts_def)
    with Inr ih show ?thesis
      by (simp add: fst_yield_rows_Cons del: yield_rows.simps)
  qed
qed

lemma thread_listing_key:
  assumes pk: "primary_key_ok rows" and r: "r \<in> set rows" "row_key r = (tid, cid)"
  shows "filter (\<lambda>x. r_thread_ts x = cid)
           (order_by_thread_ts_desc (filter (\<lambda>x. r_thread_id x = tid) rows)) = [r]"
proof (rule distinct_singleton_set)
  have "distinct (filter (\<lambda>x. r_thread_id x = tid) rows)"
    using primary_key_distinct_rows [OF pk] by simp
  then have "distinct (order_by_thread_ts_desc (filter (\<lambda>x. r_thread_id x = tid) rows))"
    by (simp add: order_by_thread_ts_desc_def)
  then show "distinct (filter (\<lambda>x. r_thread_ts x = cid)
           (order_by_thread_ts_desc (filter (\<lambda>x. r_thread_id x = tid) rows)))"
    by simp
  show "set (filter (\<lambda>x. r_thread_ts x = cid)
           (order_by_thread_ts_desc (filter (\<lambda>x. r_thread_id x = tid) rows))) = {r}"
  proof (rule equalityI; rule subsetI)
    fix x
    assume "x \<in> set (filter (\<lambda>x. r_thread_ts x = cid)
           (order_by_thread_ts_desc (filter (\<lambda>x. r_thread_id x = tid) rows)))"
    then have "x \<in> set rows" "row_key x = (tid, cid)"
      by (simp_all add: set_order_desc row_key_def)
    with r have "x = r"
      using primary_key_unique_row [OF pk, of x r] by simp
    then show "x \<in> {r}" by simp
  next
    fix x
    assume "x \<in> {r}"
    with r show "x \<in> set (filter (\<lambda>x. r_thread_ts x = cid)
           (order_by_thread_ts_desc (filter (\<lambda>x. r_thread_id x = tid) rows)))"
      by (simp add: set_order_desc row_key_def)
  qed
qed

lemma saver_list_thread:
  "fst (saver_list srd s \<lparr>thread_id = Some tid, thread_ts = None\<rparr> None None)
     = yield_rows srd (order_by_thread_ts_desc (filter (\<lambda>r. r_thread_id r = tid) (conn s)))"
  using saver_list_fst [of "\<lparr>thread_id = Some tid, thread_ts = None\<rparr>" tid srd s None None]
  by (simp add: list_query_def limit_clause_def)

text \<open>
  C4. The primary key holds in a fresh store and is kept by every operation. A \<open>put\<close>
  with key \<open>(thread_id, checkpoint id)\<close> leaves exactly one row with that key, the new one,
  and the other rows as they were; when the key was in the table the number of rows does
  not change. A listing of the thread afterwards yields at most one tuple with that id,
  and, when it runs to its end, exactly one: the tuple of the new row.
\<close>

theorem primary_key_invariant:
  assumes "primary_key_ok (conn s)"
  shows "primary_key_ok (conn (init_saver []))
       \<and> primary_key_ok (conn (saver_setup s))
       \<and> primary_key_ok (conn (snd (put srd s cfg cp md)))
       \<and> primary_key_ok (conn (snd (get_tuple srd s cfg)))
       \<and> primary_key_ok (conn (snd (saver_list srd s cfg before limit)))
       \<and> primary_key_ok (conn (snd (search srd eng lib s f before limit)))
       \<and> (\<forall>tid cid. thread_id cfg = Some tid \<and> checkpoint_id cp = Inr cid \<longrightarrow>
            filter (\<lambda>r. row_key r = (tid, cid)) (conn (snd (put srd s cfg cp md)))
              = [put_row srd tid cid cfg cp md]
            \<and> filter (\<lambda>r. row_key r \<noteq> (tid, cid)) (conn (snd (put srd s cfg cp md)))
              = filter (\<lambda>r. row_key r \<noteq> (tid, cid)) (conn s)
            \<and> ((tid, cid) \<in> row_key ` set (conn s) \<longrightarrow>
                 length (conn (snd (put srd s cfg cp md))) = length (conn s))
            \<and> length (filter (\<lambda>t. tuple_ts t = cid)
                 (fst (fst (saver_list srd (snd (put srd s cfg cp md))
                              \<lparr>thread_id = Some tid, thread_ts = None\<rparr> None None)))) \<le> 1
            \<and> (snd (fst (saver_list srd (snd (put srd s cfg cp md))
                              \<lparr>thread_id = Some tid, thread_ts = None\<rparr> None None)) = None \<longrightarrow>
                 map Inr (filter (\<lambda>t. tuple_ts t = cid)
                   (fst (fst (saver_list srd (snd (put srd s cfg cp md))
                                \<lparr>thread_id = Some tid, thread_ts = None\<rparr> None None))))
                   = [row_tuple srd (put_row srd tid cid cfg cp md)]))"
proof -
  have i0: "primary_key_ok (conn (init_saver []))"
    by (simp add: init_saver_def primary_key_ok_def)
  have i1: "primary_key_ok (conn (saver_setup s))"
    using assms by (simp add: conn_saver_setup)
  have i2: "primary_key_ok (conn (snd (put srd s cfg cp md)))"
    using assms by (rule put_primary_key)
  have i3: "primary_key_ok (conn (snd (get_tuple srd s cfg)))"
    using assms by (simp add: get_tuple_state conn_saver_setup)
  have i4: "primary_key_ok (conn (snd (saver_list srd s cfg before limit)))"
    using assms by (simp add: saver_list_state conn_saver_setup)
  have i5: "primary_key_ok (conn (snd (search srd eng lib s f before limit)))"
    using assms by (simp add: search_conn)
  have i6: "\<forall>tid cid. thread_id cfg = Some tid \<and> checkpoint_id cp = Inr cid \<longrightarrow>
            filter (\<lambda>r. row_key r = (tid, cid)) (conn (snd (put srd s cfg cp md)))
              = [put_row srd tid cid cfg cp md]
            \<and> filter (\<lambda>r. row_key r \<noteq> (tid, cid)) (conn (snd (put srd s cfg cp md)))
              = filter (\<lambda>r. row_key r \<noteq> (tid, cid)) (conn s)
            \<and> ((tid, cid) \<in> row_key ` set (conn s) \<longrightarrow>
                 length (conn (snd (put srd s cfg cp md))) = length (conn s))
            \<and> length (filter (\<lambda>t. tuple_ts t = cid)
                 (fst (fst (saver_list srd (snd (put srd s cfg cp md))
                              \<lparr>thread_id = Some tid, thread_ts = None\<rparr> None None)))) \<le> 1
            \<and> (snd (fst (saver_list srd (snd (put srd s cfg cp md))
                              \<lparr>thread_id = Some tid, thread_ts = None\<rparr> None None)) = None \<longrightarrow>
                 map Inr (filter (\<lambda>t. tuple_ts t = cid)
                   (fst (fst (saver_list srd (snd (put srd s cfg cp md))
                                \<lparr>thread_id = Some tid, thread_ts = None\<rparr> None None))))
                   = [row_tuple srd (put_row srd tid cid cfg cp md)])"
  proof (intro allI impI)
    fix tid cid
    assume a: "thread_id cfg = Some tid \<and> checkpoint_id cp = Inr cid"
    let ?new = "put_row srd tid cid cfg cp md"
    let ?s' = "snd (put srd s cfg cp md)"
    let ?sel = "order_by_thread_ts_desc (filter (\<lambda>r. r_thread_id r = tid) (conn ?s'))"
    from a have rows: "conn ?s' = insert_or_replace ?new (conn s)"
      by (simp add: put_rows)
    have key: "row_key ?new = (tid, cid)" by (rule row_key_put_row)
    have j1: "filter (\<lambda>r. row_key r = (tid, cid)) (conn ?s') = [?new]"
      using filter_key_insert [of ?new "conn s"] rows key by simp
    have j2: "filter (\<lambda>r. row_key r \<noteq> (tid, cid)) (conn ?s')
                = filter (\<lambda>r. row_key r \<noteq> (tid, cid)) (conn s)"
      using filter_other_insert [of ?new "conn s"] rows key by simp
    have j3: "(tid, cid) \<in> row_key ` set (conn s) \<longrightarrow> length (conn ?s') = length (conn s)"
      using length_insert_collide [OF assms, of ?new] rows key by simp
    have lst: "fst (saver_list srd ?s' \<lparr>thread_id = Some tid, thread_ts = None\<rparr> None None)
                 = yield_rows srd ?sel"
      by (rule saver_list_thread)
    have "distinct (map r_thread_ts (filter (\<lambda>r. r_thread_id r = tid \<and> True) (conn ?s')))"
      by (rule thread_rows_distinct [OF i2])
    then have "distinct (map r_thread_ts (filter (\<lambda>r. r_thread_id r = tid) (conn ?s')))"
      by simp
    then have "sorted_wrt (\<lambda>a b. r_thread_ts b < r_thread_ts a) ?sel"
      by (rule order_desc_strict)
    then have "sorted_wrt (\<lambda>a b. tuple_ts b < tuple_ts a) (fst (yield_rows srd ?sel))"
      by (rule yield_rows_sorted)
    then have j4: "length (filter (\<lambda>t. tuple_ts t = cid) (fst (yield_rows srd ?sel))) \<le> 1"
      by (rule filter_sorted_at_most_one)
    have "?new \<in> set (conn ?s')"
      using rows by (simp add: set_insert_or_replace)
    then have one: "filter (\<lambda>x. r_thread_ts x = cid) ?sel = [?new]"
      using thread_listing_key [OF i2 _ key] by simp
    have j5: "snd (yield_rows srd ?sel) = None \<longrightarrow>
                map Inr (filter (\<lambda>t. tuple_ts t = cid) (fst (yield_rows srd ?sel)))
                  = [row_tuple srd ?new]"
      using yield_rows_filter_complete [of srd ?sel cid] one by simp
    from j1 j2 j3 j4 j5 show "filter (\<lambda>r. row_key r = (tid, cid)) (conn (snd (put srd s cfg cp md)))
              = [put_row srd tid cid cfg cp md]
            \<and> filter (\<lambda>r. row_key r \<noteq> (tid, cid)) (conn (snd (put srd s cfg cp md)))
              = filter (\<lambda>r. row_key r \<noteq> (tid, cid)) (conn s)
            \<and> ((tid, cid) \<in> row_key ` set (conn s) \<longrightarrow>
                 length (conn (snd (put srd s cfg cp md))) = length (conn s))
            \<and> length (filter (\<lambda>t. tuple_ts t = cid)
                 (fst (fst (saver_list srd (snd (put srd s cfg cp md))
                              \<lparr>thread_id = Some tid, thread_ts = None\<rparr> None None)))) \<le> 1
            \<and> (snd (fst (saver_list srd (snd (put srd s cfg cp md))
                              \<lparr>thread_id = Some tid, thread_ts = None\<rparr> None None)) = None \<longrightarrow>
                 map Inr (filter (\<lambda>t. tuple_ts t = cid)
                   (fst (fst (saver_list srd (snd (put srd s cfg cp md))
                                \<lparr>thread_id = Some tid, thread_ts = None\<rparr> None None))))
                   = [row_tuple srd (put_row srd tid cid cfg cp md)])"
      by (simp only: lst)
  qed
  from i0 i1 i2 i3 i4 i5 i6 show ?thesis
    by - ((rule conjI, assumption)+, assumption)
qed

theorem primary_key_invariant_witness:
  "primary_key_ok (conn st2)
   \<and> thread_id loc1a = Some ''1'' \<and> checkpoint_id cpB = Inr ''b''
   \<and> (''1'', ''b'') \<in> row_key ` set (conn st2)
   \<and> primary_key_ok (conn (snd (put serde0 st2 loc1a cpB md1)))
   \<and> conn (snd (put serde0 st2 loc1a cpB md1)) = [rowA, rowB1]
   \<and> filter (\<lambda>r. row_key r = (''1'', ''b'')) (conn (snd (put serde0 st2 loc1a cpB md1))) = [rowB1]
   \<and> length (conn (snd (put serde0 st2 loc1a cpB md1))) = length (conn st2)
   \<and> map Inr (filter (\<lambda>t. tuple_ts t = ''b'')
        (fst (fst (saver_list serde0 (snd (put serde0 st2 loc1a cpB md1))
                     \<lparr>thread_id = Some ''1'', thread_ts = None\<rparr> None None))))
       = [row_tuple serde0 rowB1]
   \<and> row_tuple serde0 rowB1
       = Inr \<lparr>config = \<lparr>thread_id = Some ''1'', thread_ts = Some ''b''\<rparr>, checkpoint = cpB,
               metadata = md1,
               parent_config = Some \<lparr>thread_id = Some ''1'', thread_ts = Some ''a''\<rparr>\<rparr>"
proof -
  have pk: "primary_key_ok (conn st2)" by code_simp
  note t = primary_key_invariant [OF pk, of serde0 loc1a cpB md1]
  have h: "thread_id loc1a = Some ''1'' \<and> checkpoint_id cpB = Inr ''b''" by code_simp
  have m: "(''1'', ''b'') \<in> row_key ` set (conn st2)" by code_simp
  have v: "conn (snd (put serde0 st2 loc1a cpB md1)) = [rowA, rowB1]" by code_simp
  have e: "put_row serde0 ''1'' ''b'' loc1a cpB md1 = rowB1" by code_simp
  have r: "row_tuple serde0 rowB1
      = Inr \<lparr>config = \<lparr>thread_id = Some ''1'', thread_ts = Some ''b''\<rparr>, checkpoint = cpB,
               metadata = md1,
               parent_config = Some \<lparr>thread_id = Some ''1'', thread_ts = Some ''a''\<rparr>\<rparr>"
    by code_simp
  have n: "snd (fst (saver_list serde0 (snd (put serde0 st2 loc1a cpB md1))
                     \<lparr>thread_id = Some ''1'', thread_ts = None\<rparr> None None)) = None"
    by code_simp
  from t [THEN conjunct2, THEN conjunct2, THEN conjunct1]
  have c2: "primary_key_ok (conn (snd (put serde0 st2 loc1a cpB md1)))" .
  note u = t [THEN conjunct2, THEN conjunct2, THEN conjunct2, THEN conjunct2, THEN conjunct2,
      THEN conjunct2, THEN spec, THEN spec, THEN mp, OF h]
  from u have c3: "filter (\<lambda>r. row_key r = (''1'', ''b'')) (conn (snd (put serde0 st2 loc1a cpB md1)))
      = [rowB1]"
    by (simp only: e)
  from u [THEN conjunct2, THEN conjunct2, THEN conjunct1, THEN mp, OF m]
  have c4: "length (conn (snd (put serde0 st2 loc1a cpB md1))) = length (conn st2)" .
  from u [THEN conjunct2, THEN conjunct2, THEN conjunct2, THEN conjunct2, THEN mp, OF n]
  have c5: "map Inr (filter (\<lambda>t. tuple_ts t = ''b'')
        (fst (fst (saver_list serde0 (snd (put serde0 st2 loc1a cpB md1))
                     \<lparr>thread_id = Some ''1'', thread_ts = None\<rparr> None None))))
       = [row_tuple serde0 rowB1]"
    by (simp only: e)
  from pk h m c2 v c3 c4 c5 r show ?thesis by blast
qed

section \<open>Search: the clause read back by the engine\<close>


lemma strip_prefix_differs: "a \<noteq> b \<Longrightarrow> strip_prefix (a # p) (b # s) = None"
  by (simp add: strip_prefix_def)
































end
